theory Spec2Isabelle
  imports Main "HOL-Library.AList" "HOL-Library.Word"
begin

unbundle bit_operations_syntax

section \<open>The device crypto store of \<^verbatim>\<open>device/crypto.go\<close>\<close>

text \<open>
  The Go file keeps four files (\<^verbatim>\<open>device.key\<close>, \<^verbatim>\<open>device.pub\<close>, \<^verbatim>\<open>device.csr\<close>,
  \<^verbatim>\<open>device.crt\<close>) in the directory \<^verbatim>\<open>filepath.Join(persistencyDir, "crypto")\<close>. Every
  function of the file is translated below as a function on an explicit \<open>world\<close>: the
  content of that one directory together with what the environment decides (which
  system calls fail, the umask, the random source, the clock). Every path the source
  builds is \<^verbatim>\<open>filepath.Join(d.getCryptoDir(), name)\<close>, so files are addressed by
  \<open>name\<close> and \<open>getCryptoDir\<close> is kept for its effect (\<^verbatim>\<open>os.MkdirAll\<close> and the warning).

  The packages of the Go standard library the file calls (\<^verbatim>\<open>encoding/pem\<close>,
  \<^verbatim>\<open>crypto/x509\<close>, \<^verbatim>\<open>crypto/rsa\<close>, \<^verbatim>\<open>crypto/tls\<close>) are not part of the repository:
  their functions are the fields of a record \<open>stdlib\<close> that every operation takes as a
  parameter, and every theorem holds for every such record.
\<close>

subsection \<open>Data\<close>

type_synonym bytes = string

text \<open>A regular file: its bytes and its permission bits (\<^verbatim>\<open>os.FileMode\<close>, a \<^verbatim>\<open>uint32\<close>).\<close>

record regfile =
  content :: bytes
  perm :: "32 word"

datatype errno = ENOENT | EIO

text \<open>
  Go \<^verbatim>\<open>error\<close> values: \<open>ErrorsNew msg\<close> is \<^verbatim>\<open>errors.New(msg)\<close>, \<open>PathError op name e\<close> is
  the \<^verbatim>\<open>*os.PathError\<close> of a failed system call, \<open>LibError msg\<close> an error made by one
  of the library packages.
\<close>

datatype error = ErrorsNew string | PathError string string errno | LibError string

text \<open>A function that dereferences a nil pointer does not return: it panics.\<close>

datatype 'a outcome = Returns 'a | Panics string

text \<open>The fields of \<^verbatim>\<open>Device\<close> that \<^verbatim>\<open>crypto.go\<close> reads. A nil \<^verbatim>\<open>RootCAs\<close> is \<open>None\<close>.\<close>

record device =
  realm :: string
  deviceID :: string
  persistencyDir :: string
  RootCAs :: "bytes list option"
  IgnoreSSLErrors :: bool

text \<open>\<^verbatim>\<open>pem.Block\<close> (the source never sets \<^verbatim>\<open>Headers\<close>).\<close>

record pemBlock =
  Type :: string
  Bytes :: bytes

text \<open>\<^verbatim>\<open>rsa.PublicKey\<close> (N, E) and \<^verbatim>\<open>rsa.PrivateKey\<close> (PublicKey, D, Primes).\<close>

record rsaPublicKey =
  modulusN :: nat
  exponentE :: nat

record rsaPrivateKey =
  PublicKey :: rsaPublicKey
  exponentD :: nat
  Primes :: "nat list"

text \<open>
  The \<^verbatim>\<open>interface{}\<close> that \<^verbatim>\<open>x509.ParsePKCS8PrivateKey\<close> returns: an RSA key or a key of
  another kind; \<^verbatim>\<open>parsedKey.(*rsa.PrivateKey)\<close> succeeds on the first only.
\<close>

datatype privateKey = RSAKey rsaPrivateKey | ECDSAKey bytes | Ed25519Key bytes

text \<open>\<^verbatim>\<open>pkix.Name\<close>, \<^verbatim>\<open>x509.SignatureAlgorithm\<close> and \<^verbatim>\<open>x509.CertificateRequest\<close>, as far as
  the template of \<^verbatim>\<open>ensureCSR\<close> fills them.\<close>

record pkixName =
  CommonName :: string
  Organization :: "string list"

datatype signatureAlgorithm =
  UnknownSignatureAlgorithm | MD5WithRSA | SHA1WithRSA | SHA256WithRSA | SHA384WithRSA
  | SHA512WithRSA | ECDSAWithSHA256

record certificateRequest =
  Subject :: pkixName
  SignatureAlgorithm :: signatureAlgorithm

text \<open>\<^verbatim>\<open>x509.Certificate\<close>: the source reads \<^verbatim>\<open>NotAfter\<close> only. A \<^verbatim>\<open>time.Time\<close> is an
  instant, an integer number of nanoseconds.\<close>

record x509Certificate =
  NotBefore :: int
  NotAfter :: int

text \<open>\<^verbatim>\<open>tls.Certificate\<close> and the three fields of \<^verbatim>\<open>tls.Config\<close> that \<^verbatim>\<open>getTLSConfig\<close>
  sets (all others keep their zero value).\<close>

record tlsCertificate =
  Certificate :: "bytes list"
  PrivateKey :: privateKey

record tlsConfig =
  Certificates :: "tlsCertificate list"
  ConfigRootCAs :: "bytes list option"
  InsecureSkipVerify :: bool

subsection \<open>The standard library, as a parameter\<close>

text \<open>
  \<open>x509_CreateCertificateRequest\<close> and \<open>rsa_GenerateKey\<close> read \<^verbatim>\<open>rand.Reader\<close>: they take
  the state of the random source and return the new one. \<open>tls_X509KeyPair_tail\<close> is all
  of \<^verbatim>\<open>tls.X509KeyPair\<close> that follows its first successful \<^verbatim>\<open>pem.Decode\<close> (see
  \<open>tls_X509KeyPair\<close> below).
\<close>

record stdlib =
  pem_Decode :: "bytes \<Rightarrow> (pemBlock \<times> bytes) option"
  pem_EncodeToMemory :: "pemBlock \<Rightarrow> bytes"
  x509_ParseCertificate :: "bytes \<Rightarrow> error + x509Certificate"
  x509_ParsePKCS1PrivateKey :: "bytes \<Rightarrow> error + rsaPrivateKey"
  x509_ParsePKCS8PrivateKey :: "bytes \<Rightarrow> error + privateKey"
  x509_MarshalPKCS1PrivateKey :: "rsaPrivateKey \<Rightarrow> bytes"
  x509_MarshalPKIXPublicKey :: "rsaPublicKey \<Rightarrow> error + bytes"
  x509_CreateCertificateRequest ::
    "nat \<Rightarrow> certificateRequest \<Rightarrow> rsaPrivateKey \<Rightarrow> (error + bytes) \<times> nat"
  rsa_GenerateKey :: "nat \<Rightarrow> nat \<Rightarrow> (error + rsaPrivateKey) \<times> nat"
  tls_X509KeyPair_tail :: "pemBlock \<Rightarrow> bytes \<Rightarrow> bytes \<Rightarrow> error + tlsCertificate"

subsection \<open>The world\<close>

text \<open>
  \<open>dir\<close> is the crypto directory: \<open>None\<close> when it does not exist, else its entries in
  directory order (the order of \<^verbatim>\<open>Readdir\<close>); a new file is entered last. \<open>faults\<close> is
  what the environment has decided for the system calls still to come, one element per
  call: \<open>None\<close> lets the call through, \<open>Some n\<close> makes it fail (a failing write leaves
  the first \<open>n\<close> bytes written). An exhausted list lets every call through.
\<close>

record world =
  dir :: "(string \<times> regfile) list option"
  umask :: "32 word"
  faults :: "nat option list"
  randReader :: nat
  now :: int
  stdout :: "string list"

definition popFault :: "world \<Rightarrow> nat option \<times> world" where
  "popFault w = (case faults w of [] \<Rightarrow> (None, w) | f # fs \<Rightarrow> (f, w\<lparr>faults := fs\<rparr>))"

definition lookupFile :: "string \<Rightarrow> world \<Rightarrow> regfile option" where
  "lookupFile name w = (case dir w of None \<Rightarrow> None | Some es \<Rightarrow> map_of es name)"

subsection \<open>System calls\<close>

text \<open>\<^verbatim>\<open>os.MkdirAll(cryptoDir, perm)\<close>: nothing to do when the directory exists. The mode
  of the directory itself is not recorded.\<close>

definition os_MkdirAll :: "32 word \<Rightarrow> world \<Rightarrow> (error + unit) \<times> world" where
  "os_MkdirAll mode w =
     (case dir w of
        Some es \<Rightarrow> (Inr (), w)
      | None \<Rightarrow>
          (case popFault w of
             (Some n, w') \<Rightarrow> (Inl (PathError ''mkdir'' ''crypto'' EIO), w')
           | (None, w') \<Rightarrow> (Inr (), w'\<lparr>dir := Some []\<rparr>)))"

text \<open>\<^verbatim>\<open>os.Stat(name)\<close>: the source uses it as an existence test only (any error
  means absent), and here it answers exactly: no fault is taken for it.\<close>

definition os_Stat :: "string \<Rightarrow> world \<Rightarrow> error + regfile" where
  "os_Stat name w =
     (case lookupFile name w of
        None \<Rightarrow> Inl (PathError ''stat'' name ENOENT)
      | Some f \<Rightarrow> Inr f)"

text \<open>\<^verbatim>\<open>os.Open(cryptoDir)\<close> followed by \<^verbatim>\<open>Readdir(0)\<close>, which returns every entry.\<close>

definition os_Open :: "world \<Rightarrow> (error + unit) \<times> world" where
  "os_Open w =
     (case popFault w of
        (Some n, w') \<Rightarrow> (Inl (PathError ''open'' ''crypto'' EIO), w')
      | (None, w') \<Rightarrow>
          (case dir w' of
             None \<Rightarrow> (Inl (PathError ''open'' ''crypto'' ENOENT), w')
           | Some es \<Rightarrow> (Inr (), w')))"

definition Readdir :: "world \<Rightarrow> (error + string list) \<times> world" where
  "Readdir w =
     (case popFault w of
        (Some n, w') \<Rightarrow> (Inl (PathError ''readdirent'' ''crypto'' EIO), w')
      | (None, w') \<Rightarrow>
          (case dir w' of
             None \<Rightarrow> (Inl (PathError ''readdirent'' ''crypto'' ENOENT), w')
           | Some es \<Rightarrow> (Inr (map fst es), w')))"

text \<open>\<^verbatim>\<open>os.Remove(name)\<close>.\<close>

definition os_Remove :: "string \<Rightarrow> world \<Rightarrow> (error + unit) \<times> world" where
  "os_Remove name w =
     (case popFault w of
        (Some n, w') \<Rightarrow> (Inl (PathError ''remove'' name EIO), w')
      | (None, w') \<Rightarrow>
          (case dir w' of
             None \<Rightarrow> (Inl (PathError ''remove'' name ENOENT), w')
           | Some es \<Rightarrow>
               (case map_of es name of
                  None \<Rightarrow> (Inl (PathError ''remove'' name ENOENT), w')
                | Some f \<Rightarrow> (Inr (), w'\<lparr>dir := Some (AList.delete name es)\<rparr>))))"

text \<open>\<^verbatim>\<open>ioutil.ReadFile(name)\<close>.\<close>

definition ioutil_ReadFile :: "string \<Rightarrow> world \<Rightarrow> (error + bytes) \<times> world" where
  "ioutil_ReadFile name w =
     (case popFault w of
        (Some n, w') \<Rightarrow> (Inl (PathError ''read'' name EIO), w')
      | (None, w') \<Rightarrow>
          (case lookupFile name w' of
             None \<Rightarrow> (Inl (PathError ''open'' name ENOENT), w')
           | Some f \<Rightarrow> (Inr (content f), w')))"

text \<open>
  \<^verbatim>\<open>os.OpenFile(name, O_WRONLY|O_CREATE|O_TRUNC, mode)\<close>: an existing file is truncated
  and keeps its permissions; a new one gets \<open>mode\<close> less the umask. \<^verbatim>\<open>os.Create(name)\<close> is
  this call with mode 0666. The result is the open file, named by \<open>name\<close>.
\<close>

definition openTrunc :: "string \<Rightarrow> 32 word \<Rightarrow> world \<Rightarrow> (error + string) \<times> world" where
  "openTrunc name mode w =
     (case popFault w of
        (Some n, w') \<Rightarrow> (Inl (PathError ''open'' name EIO), w')
      | (None, w') \<Rightarrow>
          (case dir w' of
             None \<Rightarrow> (Inl (PathError ''open'' name ENOENT), w')
           | Some es \<Rightarrow>
               (case map_of es name of
                  Some f \<Rightarrow> (Inr name, w'\<lparr>dir := Some (AList.update name (f\<lparr>content := []\<rparr>) es)\<rparr>)
                | None \<Rightarrow>
                    (Inr name,
                     w'\<lparr>dir := Some (AList.update name
                            \<lparr>content = [], perm = mode AND NOT (umask w')\<rparr> es)\<rparr>))))"

definition os_Create :: "string \<Rightarrow> world \<Rightarrow> (error + string) \<times> world" where
  "os_Create name w = openTrunc name 438 w"

text \<open>
  Writing \<open>data\<close> to a file just opened by \<open>openTrunc\<close> (so empty): all of it, or on a
  fault its first \<open>n\<close> bytes and an error.
\<close>

definition writeAll :: "string \<Rightarrow> bytes \<Rightarrow> world \<Rightarrow> (error + unit) \<times> world" where
  "writeAll name data w =
     (case popFault w of
        (Some n, w') \<Rightarrow>
          (Inl (PathError ''write'' name EIO),
           w'\<lparr>dir := map_option (AList.map_entry name (\<lambda>f. f\<lparr>content := take n data\<rparr>)) (dir w')\<rparr>)
      | (None, w') \<Rightarrow>
          (Inr (),
           w'\<lparr>dir := map_option (AList.map_entry name (\<lambda>f. f\<lparr>content := data\<rparr>)) (dir w')\<rparr>))"

text \<open>\<^verbatim>\<open>ioutil.WriteFile(name, data, mode)\<close>: open as above, write, close.\<close>

definition ioutil_WriteFile :: "string \<Rightarrow> bytes \<Rightarrow> 32 word \<Rightarrow> world \<Rightarrow> (error + unit) \<times> world" where
  "ioutil_WriteFile name data mode w =
     (case openTrunc name mode w of
        (Inl err, w') \<Rightarrow> (Inl err, w')
      | (Inr f, w') \<Rightarrow> writeAll f data w')"

text \<open>\<^verbatim>\<open>pem.Encode(out, b)\<close> writes the encoding of \<open>b\<close> to the open file \<open>out\<close>.\<close>

definition pem_Encode :: "stdlib \<Rightarrow> string \<Rightarrow> pemBlock \<Rightarrow> world \<Rightarrow> (error + unit) \<times> world" where
  "pem_Encode lib out b w = writeAll out (pem_EncodeToMemory lib b) w"

text \<open>
  \<^verbatim>\<open>tls.X509KeyPair(certPEMBlock, keyPEMBlock)\<close> starts with a loop whose first step is
  \<^verbatim>\<open>pem.Decode(certPEMBlock)\<close>; when that finds no block the loop ends with no
  certificate collected and the function fails. \<^verbatim>\<open>tls.LoadX509KeyPair\<close> reads the two
  files and calls it.
\<close>

definition tls_X509KeyPair :: "stdlib \<Rightarrow> bytes \<Rightarrow> bytes \<Rightarrow> error + tlsCertificate" where
  "tls_X509KeyPair lib certPEMBlock keyPEMBlock =
     (case pem_Decode lib certPEMBlock of
        None \<Rightarrow> Inl (LibError ''tls: failed to find any PEM data in certificate input'')
      | Some (certDERBlock, rest) \<Rightarrow> tls_X509KeyPair_tail lib certDERBlock rest keyPEMBlock)"

definition tls_LoadX509KeyPair ::
  "stdlib \<Rightarrow> string \<Rightarrow> string \<Rightarrow> world \<Rightarrow> (error + tlsCertificate) \<times> world" where
  "tls_LoadX509KeyPair lib certFile keyFile w =
     (case ioutil_ReadFile certFile w of
        (Inl err, w1) \<Rightarrow> (Inl err, w1)
      | (Inr certPEMBlock, w1) \<Rightarrow>
          (case ioutil_ReadFile keyFile w1 of
             (Inl err, w2) \<Rightarrow> (Inl err, w2)
           | (Inr keyPEMBlock, w2) \<Rightarrow> (tls_X509KeyPair lib certPEMBlock keyPEMBlock, w2)))"

definition time_Before :: "int \<Rightarrow> int \<Rightarrow> bool" where
  "time_Before t u = (t < u)"

subsection \<open>The functions of \<^verbatim>\<open>crypto.go\<close>\<close>

definition getCryptoDir :: "device \<Rightarrow> world \<Rightarrow> world" where
  "getCryptoDir d w =
     (case os_MkdirAll 448 w of
        (Inl err, w') \<Rightarrow> w'\<lparr>stdout := stdout w' @ [''WARNING - could not access crypto dir!'']\<rparr>
      | (Inr u, w') \<Rightarrow> w')"

text \<open>The loop of \<^verbatim>\<open>ClearCrypto\<close> over \<^verbatim>\<open>dirFiles\<close>: it returns at the first failing removal.\<close>

fun removeEach :: "string list \<Rightarrow> world \<Rightarrow> (error + unit) \<times> world" where
  "removeEach [] w = (Inr (), w)"
| "removeEach (name # names) w =
     (case os_Remove name w of
        (Inl err, w') \<Rightarrow> (Inl err, w')
      | (Inr u, w') \<Rightarrow> removeEach names w')"

definition ClearCrypto :: "device \<Rightarrow> world \<Rightarrow> (error + unit) \<times> world" where
  "ClearCrypto d w0 =
     (let w1 = getCryptoDir d w0 in
      case os_Open w1 of
        (Inl err, w2) \<Rightarrow> (Inl err, w2)
      | (Inr dirRead, w2) \<Rightarrow>
          (case Readdir w2 of
             (Inl err, w3) \<Rightarrow> (Inl err, w3)
           | (Inr dirFiles, w3) \<Rightarrow> removeEach dirFiles w3))"

definition hasValidCertificate :: "stdlib \<Rightarrow> device \<Rightarrow> world \<Rightarrow> bool outcome \<times> world" where
  "hasValidCertificate lib d w0 =
     (let w1 = getCryptoDir d w0; w2 = getCryptoDir d w1 in
      case tls_LoadX509KeyPair lib ''device.crt'' ''device.key'' w2 of
        (Inl err, w3) \<Rightarrow> (Returns False, w3)
      | (Inr pair, w3) \<Rightarrow>
          (let w4 = getCryptoDir d w3 in
           case ioutil_ReadFile ''device.crt'' w4 of
             (Inl err, w5) \<Rightarrow> (Returns False, w5)
           | (Inr r, w5) \<Rightarrow>
               (case pem_Decode lib r of
                  None \<Rightarrow> (Panics ''invalid memory address or nil pointer dereference'', w5)
                | Some (block, rest) \<Rightarrow>
                    (case x509_ParseCertificate lib (Bytes block) of
                       Inl err \<Rightarrow> (Returns False, w5)
                     | Inr cert \<Rightarrow> (Returns (time_Before (now w5) (NotAfter cert)), w5)))))"

definition getTLSConfig :: "stdlib \<Rightarrow> device \<Rightarrow> world \<Rightarrow> (error + tlsConfig) \<times> world" where
  "getTLSConfig lib d w0 =
     (let w1 = getCryptoDir d w0; w2 = getCryptoDir d w1 in
      case tls_LoadX509KeyPair lib ''device.crt'' ''device.key'' w2 of
        (Inl err, w3) \<Rightarrow> (Inl err, w3)
      | (Inr cert, w3) \<Rightarrow>
          (Inr \<lparr>Certificates = [cert], ConfigRootCAs = RootCAs d,
                InsecureSkipVerify = IgnoreSSLErrors d\<rparr>, w3))"

definition savePEMKey :: "stdlib \<Rightarrow> string \<Rightarrow> rsaPrivateKey \<Rightarrow> world \<Rightarrow> (error + unit) \<times> world" where
  "savePEMKey lib fileName key w =
     (case os_Create fileName w of
        (Inl err, w1) \<Rightarrow> (Inl err, w1)
      | (Inr outFile, w1) \<Rightarrow>
          pem_Encode lib outFile
            \<lparr>Type = ''RSA PRIVATE KEY'', Bytes = x509_MarshalPKCS1PrivateKey lib key\<rparr> w1)"

definition savePublicPEMKey ::
  "stdlib \<Rightarrow> string \<Rightarrow> rsaPublicKey \<Rightarrow> world \<Rightarrow> (error + unit) \<times> world" where
  "savePublicPEMKey lib fileName pubkey w =
     (case x509_MarshalPKIXPublicKey lib pubkey of
        Inl err \<Rightarrow> (Inl err, w)
      | Inr pkixBytes \<Rightarrow>
          (case os_Create fileName w of
             (Inl err, w1) \<Rightarrow> (Inl err, w1)
           | (Inr pemfile, w1) \<Rightarrow>
               pem_Encode lib pemfile \<lparr>Type = ''PUBLIC KEY'', Bytes = pkixBytes\<rparr> w1))"

definition ensureKeyPair :: "stdlib \<Rightarrow> device \<Rightarrow> world \<Rightarrow> (error + unit) \<times> world" where
  "ensureKeyPair lib d w0 =
     (let w1 = getCryptoDir d w0 in
      case os_Stat ''device.key'' w1 of
        Inr info \<Rightarrow> (Inr (), w1)
      | Inl notFound \<Rightarrow>
          (case ClearCrypto d w1 of
             (Inl err, w2) \<Rightarrow> (Inl err, w2)
           | (Inr u, w2) \<Rightarrow>
               (let bitSize = 2048 in
                case rsa_GenerateKey lib (randReader w2) bitSize of
                  (Inl err, r) \<Rightarrow> (Inl err, w2\<lparr>randReader := r\<rparr>)
                | (Inr key, r) \<Rightarrow>
                    (let w3 = w2\<lparr>randReader := r\<rparr>;
                         publicKey = PublicKey key;
                         w4 = getCryptoDir d w3 in
                     case savePublicPEMKey lib ''device.pub'' publicKey w4 of
                       (Inl err, w5) \<Rightarrow> (Inl err, w5)
                     | (Inr u', w5) \<Rightarrow> savePEMKey lib ''device.key'' key w5))))"

text \<open>The template of \<^verbatim>\<open>ensureCSR\<close>; \<^verbatim>\<open>fmt.Sprintf("%s/%s", realm, deviceID)\<close> is the
  two strings with a slash between.\<close>

definition csrTemplate :: "device \<Rightarrow> certificateRequest" where
  "csrTemplate d =
     \<lparr>Subject = \<lparr>CommonName = realm d @ ''/'' @ deviceID d, Organization = [''Devices'']\<rparr>,
      SignatureAlgorithm = SHA256WithRSA\<rparr>"

text \<open>
  The two parsing attempts of \<^verbatim>\<open>ensureCSR\<close>, which leave an \<^verbatim>\<open>interface{}\<close> in
  \<^verbatim>\<open>parsedKey\<close> (\<^verbatim>\<open>x509.ParsePKCS1PrivateKey\<close> returns an \<^verbatim>\<open>*rsa.PrivateKey\<close>), and the
  type assertion \<^verbatim>\<open>parsedKey.(*rsa.PrivateKey)\<close>.
\<close>

definition parsePrivateKey :: "stdlib \<Rightarrow> bytes \<Rightarrow> error + privateKey" where
  "parsePrivateKey lib der =
     (case x509_ParsePKCS1PrivateKey lib der of
        Inr k \<Rightarrow> Inr (RSAKey k)
      | Inl err1 \<Rightarrow> x509_ParsePKCS8PrivateKey lib der)"

fun assertRSA :: "privateKey \<Rightarrow> rsaPrivateKey option" where
  "assertRSA (RSAKey k) = Some k"
| "assertRSA other = None"

definition ensureCSR :: "stdlib \<Rightarrow> device \<Rightarrow> world \<Rightarrow> (error + unit) \<times> world" where
  "ensureCSR lib d w0 =
     (case ensureKeyPair lib d w0 of
        (Inl err, w1) \<Rightarrow> (Inl err, w1)
      | (Inr u, w1) \<Rightarrow>
          (let w2 = getCryptoDir d w1 in
           case os_Stat ''device.csr'' w2 of
             Inr info \<Rightarrow> (Inr (), w2)
           | Inl notFound \<Rightarrow>
               (let template = csrTemplate d; w3 = getCryptoDir d w2 in
                case ioutil_ReadFile ''device.key'' w3 of
                  (Inl err, w4) \<Rightarrow> (Inl err, w4)
                | (Inr priv, w4) \<Rightarrow>
                    (case pem_Decode lib priv of
                       None \<Rightarrow>
                         (Inl (ErrorsNew
                            ''Corrupted data in Device Private key, clearing the crypto store''), w4)
                     | Some (privPem, rest) \<Rightarrow>
                         (case parsePrivateKey lib (Bytes privPem) of
                            Inl err \<Rightarrow> (Inl err, w4)
                          | Inr parsedKey \<Rightarrow>
                              (case assertRSA parsedKey of
                                 None \<Rightarrow>
                                   (Inl (ErrorsNew
                                      ''Unable to parse RSA private key, clearing the crypto store''),
                                    w4)
                               | Some privateKey \<Rightarrow>
                                   (case x509_CreateCertificateRequest lib (randReader w4) template
                                           privateKey of
                                      (Inl err, r) \<Rightarrow> (Inl err, w4\<lparr>randReader := r\<rparr>)
                                    | (Inr csrBytes, r) \<Rightarrow>
                                        (case os_Create ''device.csr'' (w4\<lparr>randReader := r\<rparr>) of
                                           (Inl err, w5) \<Rightarrow> (Inl err, w5)
                                         | (Inr csrFile, w5) \<Rightarrow>
                                             pem_Encode lib csrFile
                                               \<lparr>Type = ''CERTIFICATE REQUEST'', Bytes = csrBytes\<rparr>
                                               w5))))))))"

definition getCSRString :: "device \<Rightarrow> world \<Rightarrow> (error + string) \<times> world" where
  "getCSRString d w0 = ioutil_ReadFile ''device.csr'' (getCryptoDir d w0)"

definition saveCertificateFromString ::
  "stdlib \<Rightarrow> device \<Rightarrow> string \<Rightarrow> world \<Rightarrow> (error + unit) \<times> world" where
  "saveCertificateFromString lib d certificateString w0 =
     (let w1 = getCryptoDir d w0 in
      case pem_Decode lib certificateString of
        None \<Rightarrow> (Inl (ErrorsNew ''Could not decode PEM certificate''), w1)
      | Some p \<Rightarrow> ioutil_WriteFile ''device.crt'' certificateString 384 w1)"

subsection \<open>Runs of operations\<close>

text \<open>
  The operations a caller has (\<^verbatim>\<open>ensureKeyPair\<close> is reached through \<^verbatim>\<open>ensureCSR\<close>; it is
  listed as well). A run performs a list of them from a starting world, whose \<open>faults\<close>
  decide which of the system calls of the whole run fail.
\<close>

datatype operation =
  CallClearCrypto | CallEnsureKeyPair | CallEnsureCSR | CallGetCSRString
  | CallSaveCertificateFromString string | CallHasValidCertificate | CallGetTLSConfig

fun perform :: "stdlib \<Rightarrow> device \<Rightarrow> operation \<Rightarrow> world \<Rightarrow> world" where
  "perform lib d CallClearCrypto w = snd (ClearCrypto d w)"
| "perform lib d CallEnsureKeyPair w = snd (ensureKeyPair lib d w)"
| "perform lib d CallEnsureCSR w = snd (ensureCSR lib d w)"
| "perform lib d CallGetCSRString w = snd (getCSRString d w)"
| "perform lib d (CallSaveCertificateFromString s) w = snd (saveCertificateFromString lib d s w)"
| "perform lib d CallHasValidCertificate w = snd (hasValidCertificate lib d w)"
| "perform lib d CallGetTLSConfig w = snd (getTLSConfig lib d w)"

fun run :: "stdlib \<Rightarrow> device \<Rightarrow> operation list \<Rightarrow> world \<Rightarrow> world" where
  "run lib d [] w = w"
| "run lib d (c # cs) w = run lib d cs (perform lib d c w)"

text \<open>Whether every direct call of \<^verbatim>\<open>ClearCrypto\<close> in a run returns nil.\<close>

fun clearsSucceed :: "stdlib \<Rightarrow> device \<Rightarrow> operation list \<Rightarrow> world \<Rightarrow> bool" where
  "clearsSucceed lib d [] w = True"
| "clearsSucceed lib d (c # cs) w =
     ((case c of CallClearCrypto \<Rightarrow> fst (ClearCrypto d w) = Inr () | other \<Rightarrow> True)
      \<and> clearsSucceed lib d cs (perform lib d c w))"

subsection \<open>Observations on a world\<close>

definition entries :: "world \<Rightarrow> (string \<times> regfile) list" where
  "entries w = (case dir w of None \<Rightarrow> [] | Some es \<Rightarrow> es)"

definition fileExists :: "string \<Rightarrow> world \<Rightarrow> bool" where
  "fileExists name w = (lookupFile name w \<noteq> None)"

text \<open>No permission bit outside owner read and write (0600).\<close>

definition ownerOnly :: "32 word \<Rightarrow> bool" where
  "ownerOnly mode = (mode AND NOT 384 = 0)"

definition keyImpliesPub :: "world \<Rightarrow> bool" where
  "keyImpliesPub w = (fileExists ''device.key'' w \<longrightarrow> fileExists ''device.pub'' w)"

subsection \<open>A small library and some worlds to run the operations on\<close>

text \<open>
  A stand-in for the library, simple enough to compute with: a PEM text is a dash
  followed by the bytes of its block, the certificate \<open>good\<close> parses (valid until
  instant 100), the key \<open>k\<close> parses as PKCS#1 and \<open>e\<close> as a PKCS#8 ECDSA key.
\<close>

definition exampleKey :: rsaPrivateKey where
  "exampleKey = \<lparr>PublicKey = \<lparr>modulusN = 3233, exponentE = 17\<rparr>, exponentD = 413, Primes = [61, 53]\<rparr>"

definition exampleLib :: stdlib where
  "exampleLib =
     \<lparr>pem_Decode = (\<lambda>s. if s \<noteq> [] \<and> hd s = CHR ''-''
                          then Some (\<lparr>Type = ''CERTIFICATE'', Bytes = tl s\<rparr>, []) else None),
      pem_EncodeToMemory = (\<lambda>b. CHR ''-'' # Bytes b),
      x509_ParseCertificate = (\<lambda>der. if der = ''good''
                          then Inr \<lparr>NotBefore = 0, NotAfter = 100\<rparr>
                          else Inl (LibError ''x509: malformed certificate'')),
      x509_ParsePKCS1PrivateKey = (\<lambda>der. if der = ''k'' then Inr exampleKey
                          else Inl (LibError ''x509: failed to parse private key'')),
      x509_ParsePKCS8PrivateKey = (\<lambda>der. if der = ''e'' then Inr (ECDSAKey der)
                          else Inl (LibError ''x509: failed to parse private key'')),
      x509_MarshalPKCS1PrivateKey = (\<lambda>k. ''k''),
      x509_MarshalPKIXPublicKey = (\<lambda>k. Inr ''p''),
      x509_CreateCertificateRequest = (\<lambda>r t k. (Inr (CommonName (Subject t)), Suc r)),
      rsa_GenerateKey = (\<lambda>r bits. (Inr exampleKey, Suc r)),
      tls_X509KeyPair_tail = (\<lambda>b rest key. if key = ''-k''
                          then Inr \<lparr>Certificate = [Bytes b], PrivateKey = RSAKey exampleKey\<rparr>
                          else Inl (LibError ''tls: failed to find any PEM data in key input''))\<rparr>"

definition exampleDevice :: device where
  "exampleDevice =
     \<lparr>realm = ''test'', deviceID = ''dev1'', persistencyDir = ''/var/lib/astarte'',
      RootCAs = None, IgnoreSSLErrors = True\<rparr>"

text \<open>A world with the given directory and faults: umask 022, clock at instant 50.\<close>

definition exampleWorld :: "(string \<times> regfile) list option \<Rightarrow> nat option list \<Rightarrow> world" where
  "exampleWorld es fs =
     \<lparr>dir = es, umask = 18, faults = fs, randReader = 0, now = 50, stdout = []\<rparr>"

text \<open>The four files as the example library writes them, with a certificate \<open>c\<close>.\<close>

definition fullDir :: "bytes \<Rightarrow> (string \<times> regfile) list" where
  "fullDir c =
     [(''device.pub'', \<lparr>content = ''-p'', perm = 420\<rparr>),
      (''device.key'', \<lparr>content = ''-k'', perm = 420\<rparr>),
      (''device.csr'', \<lparr>content = ''-test/dev1'', perm = 420\<rparr>),
      (''device.crt'', \<lparr>content = c, perm = 384\<rparr>)]"

section \<open>Properties\<close>

subsection \<open>Effects of the system calls\<close>

lemmas example_defs = exampleLib_def exampleWorld_def exampleDevice_def fullDir_def exampleKey_def

lemmas keypair_defs = ClearCrypto_def ensureKeyPair_def savePEMKey_def savePublicPEMKey_def

lemmas csr_defs = ensureCSR_def parsePrivateKey_def csrTemplate_def

lemmas syscall_defs = getCryptoDir_def os_MkdirAll_def os_Stat_def os_Open_def Readdir_def
  os_Remove_def ioutil_ReadFile_def openTrunc_def os_Create_def writeAll_def
  ioutil_WriteFile_def pem_Encode_def popFault_def lookupFile_def tls_LoadX509KeyPair_def
  tls_X509KeyPair_def time_Before_def


lemma getCryptoDir_Some: "dir w = Some es \<Longrightarrow> getCryptoDir d w = w"
  by (simp add: getCryptoDir_def os_MkdirAll_def)

lemma lookupFile_getCryptoDir [simp]: "lookupFile name (getCryptoDir d w) = lookupFile name w"
  by (simp add: getCryptoDir_def os_MkdirAll_def popFault_def lookupFile_def
      split: option.splits list.splits)

lemma entries_getCryptoDir [simp]: "entries (getCryptoDir d w) = entries w"
  by (simp add: getCryptoDir_def os_MkdirAll_def popFault_def entries_def
      split: option.splits list.splits)

lemma env_getCryptoDir [simp]:
  "umask (getCryptoDir d w) = umask w" "randReader (getCryptoDir d w) = randReader w"
  "now (getCryptoDir d w) = now w"
  by (simp_all add: getCryptoDir_def os_MkdirAll_def popFault_def
      split: option.splits list.splits)

lemma lookupFile_entries: "lookupFile name w = map_of (entries w) name"
  by (simp add: lookupFile_def entries_def split: option.splits)

lemma lookupFile_dir_eq: "dir w' = dir w \<Longrightarrow> lookupFile name w' = lookupFile name w"
  by (simp add: lookupFile_def)

lemma entries_dir_eq: "dir w' = dir w \<Longrightarrow> entries w' = entries w"
  by (simp add: entries_def)

lemma ioutil_ReadFileE:
  assumes "ioutil_ReadFile name w = (r, w')"
  obtains (fail) err where "r = Inl err" "dir w' = dir w" "umask w' = umask w"
      "randReader w' = randReader w" "now w' = now w"
  | (ok) f where "r = Inr (content f)" "lookupFile name w = Some f" "dir w' = dir w"
      "umask w' = umask w" "randReader w' = randReader w" "now w' = now w"
  using assms
  by (auto simp: ioutil_ReadFile_def popFault_def lookupFile_def split: list.splits option.splits)

lemma tls_X509KeyPair_decodes:
  "tls_X509KeyPair lib c k = Inr pair \<Longrightarrow> pem_Decode lib c \<noteq> None"
  by (auto simp: tls_X509KeyPair_def split: option.splits)

lemma tls_LoadX509KeyPairE:
  assumes "tls_LoadX509KeyPair lib certFile keyFile w = (r, w')"
  obtains (fail) err where "r = Inl err" "dir w' = dir w" "umask w' = umask w"
      "randReader w' = randReader w" "now w' = now w"
  | (ok) f g pair where "r = Inr pair" "lookupFile certFile w = Some f"
      "lookupFile keyFile w = Some g" "tls_X509KeyPair lib (content f) (content g) = Inr pair"
      "dir w' = dir w" "umask w' = umask w" "randReader w' = randReader w" "now w' = now w"
proof -
  obtain r1 w1 where r1: "ioutil_ReadFile certFile w = (r1, w1)" by fastforce
  from r1 show ?thesis
  proof (cases rule: ioutil_ReadFileE)
    case (fail e)
    with r1 assms have "r = Inl e" "w' = w1" by (auto simp: tls_LoadX509KeyPair_def)
    with fail show ?thesis by (intro that(1)[of e]) simp_all
  next
    case f: (ok f)
    obtain r2 w2 where r2: "ioutil_ReadFile keyFile w1 = (r2, w2)" by fastforce
    from r2 show ?thesis
    proof (cases rule: ioutil_ReadFileE)
      case (fail e)
      with r1 r2 f assms have "r = Inl e" "w' = w2" by (auto simp: tls_LoadX509KeyPair_def)
      with fail f show ?thesis by (intro that(1)[of e]) simp_all
    next
      case g: (ok g)
      with r1 r2 f assms have rr: "r = tls_X509KeyPair lib (content f) (content g)" "w' = w2"
        by (auto simp: tls_LoadX509KeyPair_def)
      from g f have gk: "lookupFile keyFile w = Some g" by (simp add: lookupFile_def)
      show ?thesis
      proof (cases r)
        case (Inl e)
        with rr g f show ?thesis by (intro that(1)[of e]) simp_all
      next
        case (Inr pair)
        show ?thesis
        proof (rule that(2))
          show "r = Inr pair" by (fact Inr)
          show "lookupFile certFile w = Some f" by (fact f)
          show "lookupFile keyFile w = Some g" by (fact gk)
          show "tls_X509KeyPair lib (content f) (content g) = Inr pair" using rr Inr by simp
        qed (use rr g f in simp_all)
      qed
    qed
  qed
qed

lemma hasValidCertificate_result:
  "fst (hasValidCertificate lib d w) = Returns False \<or>
   (\<exists>f block rest cert. lookupFile ''device.crt'' w = Some f
      \<and> pem_Decode lib (content f) = Some (block, rest)
      \<and> x509_ParseCertificate lib (Bytes block) = Inr cert
      \<and> fst (hasValidCertificate lib d w) = Returns (now w < NotAfter cert))"
proof -
  let ?w2 = "getCryptoDir d (getCryptoDir d w)"
  obtain r w3 where load: "tls_LoadX509KeyPair lib ''device.crt'' ''device.key'' ?w2 = (r, w3)"
    by fastforce
  from load show ?thesis
  proof (cases rule: tls_LoadX509KeyPairE)
    case (fail e)
    with load show ?thesis by (simp add: hasValidCertificate_def)
  next
    case (ok f g pair)
    from ok(4) obtain block rest where dec: "pem_Decode lib (content f) = Some (block, rest)"
      using tls_X509KeyPair_decodes by fastforce
    obtain r5 w5 where rd: "ioutil_ReadFile ''device.crt'' (getCryptoDir d w3) = (r5, w5)"
      by fastforce
    have f0: "lookupFile ''device.crt'' w = Some f" using ok(2) by simp
    have f3: "lookupFile ''device.crt'' (getCryptoDir d w3) = Some f"
      using ok(2,5) lookupFile_dir_eq[of w3 ?w2] by simp
    from rd show ?thesis
    proof (cases rule: ioutil_ReadFileE)
      case (fail e)
      with load ok(1) rd show ?thesis by (simp add: hasValidCertificate_def)
    next
      case c: (ok f')
      with f3 have ff: "f' = f" by simp
      have nw: "now w5 = now w" using c ok by simp
      show ?thesis
      proof (cases "x509_ParseCertificate lib (Bytes block)")
        case (Inl e)
        with load ok(1) rd c ff dec show ?thesis by (simp add: hasValidCertificate_def)
      next
        case cert: (Inr cert)
        with load ok(1) rd c ff dec f0 nw show ?thesis
          by (simp add: hasValidCertificate_def time_Before_def)
      qed
    qed
  qed
qed

subsection \<open>\<^verbatim>\<open>hasValidCertificate\<close>\<close>

text \<open>
  C1. In every world, for every library, \<open>hasValidCertificate\<close> returns a boolean and never
  panics: the nil dereference of \<^verbatim>\<open>block.Bytes\<close> is not reached, because a key pair
  that loaded has a certificate file whose first \<^verbatim>\<open>pem.Decode\<close> finds a block. It
  returns false when the key pair does not load, when the certificate file is missing
  or its read fails, when its content has no PEM block, and when the bytes of its block
  do not parse as a certificate.
\<close>

theorem hasValidCertificate_never_raises:
  "(\<exists>b. fst (hasValidCertificate lib d w) = Returns b)
   \<and> (\<forall>err w3. tls_LoadX509KeyPair lib ''device.crt'' ''device.key''
                   (getCryptoDir d (getCryptoDir d w)) = (Inl err, w3)
        \<longrightarrow> fst (hasValidCertificate lib d w) = Returns False)
   \<and> (\<forall>pair w3 err w5. tls_LoadX509KeyPair lib ''device.crt'' ''device.key''
                   (getCryptoDir d (getCryptoDir d w)) = (Inr pair, w3)
          \<and> ioutil_ReadFile ''device.crt'' (getCryptoDir d w3) = (Inl err, w5)
        \<longrightarrow> fst (hasValidCertificate lib d w) = Returns False)
   \<and> (lookupFile ''device.crt'' w = None
        \<longrightarrow> fst (hasValidCertificate lib d w) = Returns False)
   \<and> (\<forall>f. lookupFile ''device.crt'' w = Some f \<and> pem_Decode lib (content f) = None
        \<longrightarrow> fst (hasValidCertificate lib d w) = Returns False)
   \<and> (\<forall>f block rest err. lookupFile ''device.crt'' w = Some f
          \<and> pem_Decode lib (content f) = Some (block, rest)
          \<and> x509_ParseCertificate lib (Bytes block) = Inl err
        \<longrightarrow> fst (hasValidCertificate lib d w) = Returns False)"
proof (intro conjI allI impI)
  show "\<exists>b. fst (hasValidCertificate lib d w) = Returns b"
    using hasValidCertificate_result [of lib d w] by auto
next
  fix err w3
  assume "tls_LoadX509KeyPair lib ''device.crt'' ''device.key''
            (getCryptoDir d (getCryptoDir d w)) = (Inl err, w3)"
  then show "fst (hasValidCertificate lib d w) = Returns False"
    by (simp add: hasValidCertificate_def)
next
  fix pair w3 err w5
  assume "tls_LoadX509KeyPair lib ''device.crt'' ''device.key''
            (getCryptoDir d (getCryptoDir d w)) = (Inr pair, w3)
          \<and> ioutil_ReadFile ''device.crt'' (getCryptoDir d w3) = (Inl err, w5)"
  then show "fst (hasValidCertificate lib d w) = Returns False"
    by (simp add: hasValidCertificate_def)
next
  assume "lookupFile ''device.crt'' w = None"
  then show "fst (hasValidCertificate lib d w) = Returns False"
    using hasValidCertificate_result [of lib d w] by auto
next
  fix f
  assume "lookupFile ''device.crt'' w = Some f \<and> pem_Decode lib (content f) = None"
  then show "fst (hasValidCertificate lib d w) = Returns False"
    using hasValidCertificate_result [of lib d w] by auto
next
  fix f block rest err
  assume "lookupFile ''device.crt'' w = Some f
          \<and> pem_Decode lib (content f) = Some (block, rest)
          \<and> x509_ParseCertificate lib (Bytes block) = Inl err"
  then show "fst (hasValidCertificate lib d w) = Returns False"
    using hasValidCertificate_result [of lib d w] by auto
qed

theorem hasValidCertificate_never_raises_witness:
  "lookupFile ''device.crt'' (exampleWorld (Some (fullDir ''-bad'')) [])
     = Some \<lparr>content = ''-bad'', perm = 384\<rparr>
   \<and> pem_Decode exampleLib ''-bad'' = Some (\<lparr>Type = ''CERTIFICATE'', Bytes = ''bad''\<rparr>, [])
   \<and> x509_ParseCertificate exampleLib ''bad'' = Inl (LibError ''x509: malformed certificate'')
   \<and> fst (hasValidCertificate exampleLib exampleDevice (exampleWorld (Some (fullDir ''-bad'')) []))
     = Returns False"
proof -
  have h: "lookupFile ''device.crt'' (exampleWorld (Some (fullDir ''-bad'')) [])
             = Some \<lparr>content = ''-bad'', perm = 384\<rparr>"
    "pem_Decode exampleLib ''-bad'' = Some (\<lparr>Type = ''CERTIFICATE'', Bytes = ''bad''\<rparr>, [])"
    "x509_ParseCertificate exampleLib ''bad'' = Inl (LibError ''x509: malformed certificate'')"
    by (simp_all add: example_defs lookupFile_def)
  with hasValidCertificate_never_raises
    [of exampleLib exampleDevice "exampleWorld (Some (fullDir ''-bad'')) []"]
  show ?thesis by simp
qed

text \<open>
  C5. When the key pair loads, the certificate file is read, its content decodes and
  the block parses to \<open>cert\<close>, \<open>hasValidCertificate\<close> returns true exactly when the
  current instant is strictly before \<open>NotAfter cert\<close>; so it returns false when
  \<open>NotAfter cert\<close> is at or before the current instant.
\<close>

theorem hasValidCertificate_expiry:
  assumes "tls_LoadX509KeyPair lib ''device.crt'' ''device.key''
             (getCryptoDir d (getCryptoDir d w)) = (Inr pair, w3)"
    and "ioutil_ReadFile ''device.crt'' (getCryptoDir d w3) = (Inr r, w5)"
    and "pem_Decode lib r = Some (block, rest)"
    and "x509_ParseCertificate lib (Bytes block) = Inr cert"
  shows "fst (hasValidCertificate lib d w) = Returns (now w < NotAfter cert)
         \<and> (NotAfter cert \<le> now w \<longrightarrow> fst (hasValidCertificate lib d w) = Returns False)"
proof -
  from assms(1) have "now w3 = now w" by (auto elim!: tls_LoadX509KeyPairE)
  with assms(2) have "now w5 = now w" by (auto elim!: ioutil_ReadFileE)
  with assms show ?thesis by (auto simp: hasValidCertificate_def time_Before_def)
qed

theorem hasValidCertificate_expiry_witness:
  "tls_LoadX509KeyPair exampleLib ''device.crt'' ''device.key''
     (getCryptoDir exampleDevice (getCryptoDir exampleDevice
        (exampleWorld (Some (fullDir ''-good'')) [])))
     = (Inr \<lparr>Certificate = [''good''], PrivateKey = RSAKey exampleKey\<rparr>,
        exampleWorld (Some (fullDir ''-good'')) [])
   \<and> ioutil_ReadFile ''device.crt''
       (getCryptoDir exampleDevice (exampleWorld (Some (fullDir ''-good'')) []))
     = (Inr ''-good'', exampleWorld (Some (fullDir ''-good'')) [])
   \<and> pem_Decode exampleLib ''-good'' = Some (\<lparr>Type = ''CERTIFICATE'', Bytes = ''good''\<rparr>, [])
   \<and> x509_ParseCertificate exampleLib ''good'' = Inr \<lparr>NotBefore = 0, NotAfter = 100\<rparr>
   \<and> fst (hasValidCertificate exampleLib exampleDevice
            (exampleWorld (Some (fullDir ''-good'')) [])) = Returns True"
proof -
  have h1: "tls_LoadX509KeyPair exampleLib ''device.crt'' ''device.key''
     (getCryptoDir exampleDevice (getCryptoDir exampleDevice
        (exampleWorld (Some (fullDir ''-good'')) [])))
     = (Inr \<lparr>Certificate = [''good''], PrivateKey = RSAKey exampleKey\<rparr>,
        exampleWorld (Some (fullDir ''-good'')) [])"
    by (simp add: example_defs syscall_defs)
  have h2: "ioutil_ReadFile ''device.crt''
       (getCryptoDir exampleDevice (exampleWorld (Some (fullDir ''-good'')) []))
     = (Inr ''-good'', exampleWorld (Some (fullDir ''-good'')) [])"
    by (simp add: example_defs syscall_defs)
  have h3: "pem_Decode exampleLib ''-good''
              = Some (\<lparr>Type = ''CERTIFICATE'', Bytes = ''good''\<rparr>, [])"
    by (simp add: example_defs)
  have h4: "x509_ParseCertificate exampleLib (Bytes \<lparr>Type = ''CERTIFICATE'', Bytes = ''good''\<rparr>)
              = Inr \<lparr>NotBefore = 0, NotAfter = 100\<rparr>"
    by (simp add: example_defs)
  have n: "now (exampleWorld (Some (fullDir ''-good'')) []) = 50"
    by (simp add: exampleWorld_def)
  from hasValidCertificate_expiry [OF h1 h2 h3 h4] h1 h2 h3 h4 n show ?thesis by simp
qed

subsection \<open>\<^verbatim>\<open>getTLSConfig\<close>\<close>

text \<open>
  C7. \<open>getTLSConfig\<close> fails, with the error of \<^verbatim>\<open>tls.LoadX509KeyPair\<close>, exactly when that
  call fails, as it does when a file is missing or the pair does not match; on success
  the configuration holds the loaded pair, the \<^verbatim>\<open>RootCAs\<close> of the device, and skips
  verification of the peer exactly when \<^verbatim>\<open>IgnoreSSLErrors\<close> is set. The files stay as
  they are.
\<close>

theorem getTLSConfig_spec:
  "(\<forall>err w3. tls_LoadX509KeyPair lib ''device.crt'' ''device.key''
                 (getCryptoDir d (getCryptoDir d w)) = (Inl err, w3)
        \<longrightarrow> getTLSConfig lib d w = (Inl err, w3))
   \<and> (\<forall>pair w3. tls_LoadX509KeyPair lib ''device.crt'' ''device.key''
                 (getCryptoDir d (getCryptoDir d w)) = (Inr pair, w3)
        \<longrightarrow> getTLSConfig lib d w =
              (Inr \<lparr>Certificates = [pair], ConfigRootCAs = RootCAs d,
                    InsecureSkipVerify = IgnoreSSLErrors d\<rparr>, w3))
   \<and> (lookupFile ''device.crt'' w = None \<or> lookupFile ''device.key'' w = None
        \<longrightarrow> (\<exists>err. fst (getTLSConfig lib d w) = Inl err))
   \<and> (\<forall>f g err. lookupFile ''device.crt'' w = Some f \<and> lookupFile ''device.key'' w = Some g
          \<and> tls_X509KeyPair lib (content f) (content g) = Inl err
        \<longrightarrow> (\<exists>e. fst (getTLSConfig lib d w) = Inl e))
   \<and> (\<forall>cfg. fst (getTLSConfig lib d w) = Inr cfg
        \<longrightarrow> (\<exists>f g pair. lookupFile ''device.crt'' w = Some f
                \<and> lookupFile ''device.key'' w = Some g
                \<and> tls_X509KeyPair lib (content f) (content g) = Inr pair
                \<and> Certificates cfg = [pair])
            \<and> ConfigRootCAs cfg = RootCAs d
            \<and> InsecureSkipVerify cfg = IgnoreSSLErrors d)
   \<and> entries (snd (getTLSConfig lib d w)) = entries w"
proof -
  let ?w2 = "getCryptoDir d (getCryptoDir d w)"
  obtain r w3 where load: "tls_LoadX509KeyPair lib ''device.crt'' ''device.key'' ?w2 = (r, w3)"
    by fastforce
  from load show ?thesis
  proof (cases rule: tls_LoadX509KeyPairE)
    case (fail err)
    have res: "getTLSConfig lib d w = (Inl err, w3)"
      using load fail(1) by (simp add: getTLSConfig_def)
    have ent: "entries w3 = entries w"
      using entries_dir_eq [OF fail(2)] by simp
    have nopair: "\<And>f g. lookupFile ''device.crt'' w = Some f \<Longrightarrow>
        lookupFile ''device.key'' w = Some g \<Longrightarrow>
        \<exists>e. fst (getTLSConfig lib d w) = Inl e"
      using res by simp
    show ?thesis using res load fail(1) ent by auto
  next
    case (ok f g pair)
    have res: "getTLSConfig lib d w =
      (Inr \<lparr>Certificates = [pair], ConfigRootCAs = RootCAs d,
            InsecureSkipVerify = IgnoreSSLErrors d\<rparr>, w3)"
      using load ok(1) by (simp add: getTLSConfig_def)
    have ent: "entries w3 = entries w"
      using entries_dir_eq [OF ok(5)] by simp
    have fg: "lookupFile ''device.crt'' w = Some f" "lookupFile ''device.key'' w = Some g"
      using ok(2,3) by simp_all
    show ?thesis using res load ok(1,4) ent fg by auto
  qed
qed

theorem getTLSConfig_spec_witness:
  "tls_LoadX509KeyPair exampleLib ''device.crt'' ''device.key''
     (getCryptoDir exampleDevice (getCryptoDir exampleDevice
        (exampleWorld (Some (fullDir ''-good'')) [])))
     = (Inr \<lparr>Certificate = [''good''], PrivateKey = RSAKey exampleKey\<rparr>,
        exampleWorld (Some (fullDir ''-good'')) [])
   \<and> getTLSConfig exampleLib exampleDevice (exampleWorld (Some (fullDir ''-good'')) [])
     = (Inr \<lparr>Certificates = [\<lparr>Certificate = [''good''], PrivateKey = RSAKey exampleKey\<rparr>],
             ConfigRootCAs = None, InsecureSkipVerify = True\<rparr>,
        exampleWorld (Some (fullDir ''-good'')) [])
   \<and> lookupFile ''device.crt'' (exampleWorld (Some []) []) = None
   \<and> (\<exists>err. fst (getTLSConfig exampleLib exampleDevice (exampleWorld (Some []) [])) = Inl err)"
proof -
  have h1: "tls_LoadX509KeyPair exampleLib ''device.crt'' ''device.key''
     (getCryptoDir exampleDevice (getCryptoDir exampleDevice
        (exampleWorld (Some (fullDir ''-good'')) [])))
     = (Inr \<lparr>Certificate = [''good''], PrivateKey = RSAKey exampleKey\<rparr>,
        exampleWorld (Some (fullDir ''-good'')) [])"
    by (simp add: example_defs syscall_defs)
  have h2: "lookupFile ''device.crt'' (exampleWorld (Some []) []) = None"
    by (simp add: example_defs lookupFile_def)
  have d: "RootCAs exampleDevice = None" "IgnoreSSLErrors exampleDevice = True"
    by (simp_all add: exampleDevice_def)
  from getTLSConfig_spec [of exampleLib exampleDevice "exampleWorld (Some (fullDir ''-good'')) []"]
    getTLSConfig_spec [of exampleLib exampleDevice "exampleWorld (Some []) []"]
    h1 h2 d
  show ?thesis by simp
qed

subsection \<open>Removing files\<close>

lemma os_OpenE:
  assumes "os_Open w = (r, w')"
  obtains (fail) op e where "r = Inl (PathError op ''crypto'' e)" "dir w' = dir w"
      "umask w' = umask w" "randReader w' = randReader w" "now w' = now w"
  | (ok) es where "r = Inr ()" "dir w = Some es" "dir w' = dir w"
      "umask w' = umask w" "randReader w' = randReader w" "now w' = now w"
  using assms
  by (auto simp: os_Open_def popFault_def split: list.splits option.splits)

lemma ReaddirE:
  assumes "Readdir w = (r, w')"
  obtains (fail) op e where "r = Inl (PathError op ''crypto'' e)" "dir w' = dir w"
      "umask w' = umask w" "randReader w' = randReader w" "now w' = now w"
  | (ok) es where "r = Inr (map fst es)" "dir w = Some es" "dir w' = dir w"
      "umask w' = umask w" "randReader w' = randReader w" "now w' = now w"
  using assms
  by (auto simp: Readdir_def popFault_def split: list.splits option.splits)

lemma os_RemoveE:
  assumes "os_Remove name w = (r, w')"
  obtains (fail) e where "r = Inl (PathError ''remove'' name e)" "dir w' = dir w"
      "umask w' = umask w" "randReader w' = randReader w" "now w' = now w"
  | (ok) es f where "r = Inr ()" "dir w = Some es" "map_of es name = Some f"
      "dir w' = Some (AList.delete name es)"
      "umask w' = umask w" "randReader w' = randReader w" "now w' = now w"
  using assms
  by (auto simp: os_Remove_def popFault_def split: list.splits option.splits)

lemma removeEach_env:
  "removeEach names w = (r, w') \<Longrightarrow>
     umask w' = umask w \<and> randReader w' = randReader w \<and> now w' = now w"
proof (induction names arbitrary: w)
  case Nil
  then show ?case by simp
next
  case (Cons n ns)
  obtain r1 w1 where r1: "os_Remove n w = (r1, w1)" by fastforce
  from r1 show ?case
  proof (cases rule: os_RemoveE)
    case (fail e)
    with Cons.prems r1 show ?thesis by simp
  next
    case (ok es f)
    with Cons.prems r1 have "removeEach ns w1 = (r, w')" by simp
    from Cons.IH [OF this] ok show ?thesis by simp
  qed
qed

lemma removeEach_PathError:
  "removeEach names w = (Inl err, w') \<Longrightarrow> \<exists>name e. err = PathError ''remove'' name e"
proof (induction names arbitrary: w)
  case Nil
  then show ?case by simp
next
  case (Cons n ns)
  obtain r1 w1 where r1: "os_Remove n w = (r1, w1)" by fastforce
  from r1 show ?case
  proof (cases rule: os_RemoveE)
    case (fail e)
    with Cons.prems r1 show ?thesis by auto
  next
    case (ok es f)
    with Cons.prems r1 have "removeEach ns w1 = (Inl err, w')" by simp
    from Cons.IH [OF this] show ?thesis .
  qed
qed

lemma removeEach_absent:
  "removeEach names w = (r, w') \<Longrightarrow> lookupFile name w = None \<Longrightarrow> lookupFile name w' = None"
proof (induction names arbitrary: w)
  case Nil
  then show ?case by simp
next
  case (Cons n ns)
  obtain r1 w1 where r1: "os_Remove n w = (r1, w1)" by fastforce
  from r1 show ?case
  proof (cases rule: os_RemoveE)
    case (fail e)
    with Cons.prems r1 show ?thesis by (simp add: lookupFile_def)
  next
    case (ok es f)
    with Cons.prems r1 have re: "removeEach ns w1 = (r, w')" by simp
    have "lookupFile name w1 = None"
      using ok Cons.prems(2) by (simp add: lookupFile_def delete_conv')
    from Cons.IH [OF re this] show ?thesis .
  qed
qed

lemma removeEach_ok:
  "removeEach names w = (Inr (), w') \<Longrightarrow> dir w = Some es \<Longrightarrow>
     dir w' = Some (filter (\<lambda>p. fst p \<notin> set names) es)"
proof (induction names arbitrary: w es)
  case Nil
  then show ?case by simp
next
  case (Cons n ns)
  obtain r1 w1 where r1: "os_Remove n w = (r1, w1)" by fastforce
  from r1 show ?case
  proof (cases rule: os_RemoveE)
    case (fail e)
    with Cons.prems r1 show ?thesis by simp
  next
    case (ok es' f)
    with Cons.prems r1 have re: "removeEach ns w1 = (Inr (), w')" by simp
    have d1: "dir w1 = Some (AList.delete n es)" using ok Cons.prems(2) by simp
    have "dir w' = Some (filter (\<lambda>p. fst p \<notin> set ns) (AList.delete n es))"
      by (rule Cons.IH [OF re d1])
    also have "filter (\<lambda>p. fst p \<notin> set ns) (AList.delete n es)
                 = filter (\<lambda>p. fst p \<notin> set (n # ns)) es"
      by (induction es) (auto simp: AList.delete_eq)
    finally show ?thesis .
  qed
qed

lemma removeEach_drop:
  "dir w = Some es \<Longrightarrow> distinct (map fst es) \<Longrightarrow> removeEach (map fst es) w = (r, w') \<Longrightarrow>
     \<exists>k\<le>length es. dir w' = Some (drop k es) \<and> (r = Inr () \<longrightarrow> k = length es)"
proof (induction es arbitrary: w)
  case Nil
  then show ?case by simp
next
  case (Cons p ps)
  obtain r1 w1 where r1: "os_Remove (fst p) w = (r1, w1)" by fastforce
  from r1 show ?case
  proof (cases rule: os_RemoveE)
    case (fail e)
    with Cons.prems r1 have "dir w' = Some (drop 0 (p # ps))" "r \<noteq> Inr ()" by auto
    then show ?thesis by blast
  next
    case (ok es' f)
    with Cons.prems r1 have re: "removeEach (map fst ps) w1 = (r, w')" by simp
    have "AList.delete (fst p) (p # ps) = ps"
      using Cons.prems(2) by simp
    moreover have "es' = p # ps" using ok(2) Cons.prems(1) by simp
    ultimately have d1: "dir w1 = Some ps" using ok(4) by simp
    from Cons.prems(2) have "distinct (map fst ps)" by simp
    from Cons.IH [OF d1 this re] obtain k where
      "k \<le> length ps" "dir w' = Some (drop k ps)" "r = Inr () \<longrightarrow> k = length ps" by blast
    then have "Suc k \<le> length (p # ps) \<and> dir w' = Some (drop (Suc k) (p # ps))
        \<and> (r = Inr () \<longrightarrow> Suc k = length (p # ps))" by simp
    then show ?thesis by blast
  qed
qed

text \<open>The removal of the file at position \<open>k\<close> fails: the \<open>k\<close> files before it are gone.\<close>

lemma removeEach_fault:
  "dir w = Some es \<Longrightarrow> distinct (map fst es) \<Longrightarrow> k < length es \<Longrightarrow>
   faults w = replicate k None @ Some n # fs \<Longrightarrow>
   removeEach (map fst es) w
     = (Inl (PathError ''remove'' (fst (es ! k)) EIO), w\<lparr>dir := Some (drop k es), faults := fs\<rparr>)"
proof (induction k arbitrary: w es)
  case 0
  then obtain p ps where es: "es = p # ps" by (cases es) auto
  with 0 show ?case by (simp add: os_Remove_def popFault_def)
next
  case (Suc k)
  then obtain p ps where es: "es = p # ps" by (cases es) auto
  have del: "AList.delete (fst p) (p # ps) = ps"
    using Suc.prems(2) es by simp
  let ?w1 = "w\<lparr>faults := replicate k None @ Some n # fs, dir := Some ps\<rparr>"
  have rm: "os_Remove (fst p) w = (Inr (), ?w1)"
    using Suc.prems(1,4) es del by (cases p) (simp add: os_Remove_def popFault_def)
  have "removeEach (map fst ps) ?w1
     = (Inl (PathError ''remove'' (fst (ps ! k)) EIO), ?w1\<lparr>dir := Some (drop k ps), faults := fs\<rparr>)"
    by (rule Suc.IH) (use Suc.prems es in simp_all)
  with rm es show ?case by simp
qed

lemma ClearCryptoE:
  assumes "ClearCrypto d w = (r, w')"
  obtains (fail) op name e where "r = Inl (PathError op name e)"
      "\<And>n. lookupFile n w = None \<Longrightarrow> lookupFile n w' = None"
      "umask w' = umask w" "randReader w' = randReader w" "now w' = now w"
  | (ok) "r = Inr ()" "dir w' = Some []"
      "umask w' = umask w" "randReader w' = randReader w" "now w' = now w"
proof -
  let ?w1 = "getCryptoDir d w"
  obtain r2 w2 where o: "os_Open ?w1 = (r2, w2)" by fastforce
  from o show ?thesis
  proof (cases rule: os_OpenE)
    case (fail op e)
    with o assms have "r = Inl (PathError op ''crypto'' e)" "w' = w2"
      by (simp_all add: ClearCrypto_def)
    with fail show ?thesis
      using lookupFile_dir_eq [of w2 ?w1] by (intro that(1)[of op "''crypto''" e]) simp_all
  next
    case ok2: (ok es)
    obtain r3 w3 where rd: "Readdir w2 = (r3, w3)" by fastforce
    from rd show ?thesis
    proof (cases rule: ReaddirE)
      case (fail op e)
      with o ok2 rd assms have "r = Inl (PathError op ''crypto'' e)" "w' = w3"
        by (simp_all add: ClearCrypto_def)
      with fail ok2 show ?thesis
        using lookupFile_dir_eq [of w3 ?w1] by (intro that(1)[of op "''crypto''" e]) simp_all
    next
      case ok3: (ok es3)
      with o ok2 rd assms have re: "removeEach (map fst es3) w3 = (r, w')"
        by (simp add: ClearCrypto_def)
      have env: "umask w' = umask w" "randReader w' = randReader w" "now w' = now w"
        using removeEach_env [OF re] ok3 ok2 by simp_all
      have d3: "dir w3 = Some es3" using ok3 by simp
      show ?thesis
      proof (cases r)
        case (Inl err)
        with re obtain name e where err: "err = PathError ''remove'' name e"
          using removeEach_PathError by blast
        have "\<And>n. lookupFile n w = None \<Longrightarrow> lookupFile n w' = None"
        proof -
          fix n assume "lookupFile n w = None"
          then have "lookupFile n w3 = None"
            using lookupFile_dir_eq [of w3 ?w1] ok3 ok2 by simp
          with re show "lookupFile n w' = None" by (rule removeEach_absent)
        qed
        with Inl err env show ?thesis by (intro that(1)[of "''remove''" name e]) simp_all
      next
        case (Inr u)
        with re d3 have "dir w' = Some (filter (\<lambda>p. fst p \<notin> set (map fst es3)) es3)"
          using removeEach_ok by simp
        also have "filter (\<lambda>p. fst p \<notin> set (map fst es3)) es3 = []"
          by (simp add: filter_empty_conv)
        finally show ?thesis using Inr env by (intro that(2)) simp_all
      qed
    qed
  qed
qed

lemma hasValidCertificate_no_crt:
  "lookupFile ''device.crt'' w = None \<Longrightarrow> fst (hasValidCertificate lib d w) = Returns False"
  using hasValidCertificate_result [of lib d w] by auto

lemma ClearCrypto_drop:
  assumes "distinct (map fst (entries w))"
  shows "\<exists>k. entries (snd (ClearCrypto d w)) = drop k (entries w)"
proof -
  let ?w1 = "getCryptoDir d w"
  obtain r2 w2 where o: "os_Open ?w1 = (r2, w2)" by fastforce
  from o show ?thesis
  proof (cases rule: os_OpenE)
    case (fail op e)
    with o have "snd (ClearCrypto d w) = w2" by (simp add: ClearCrypto_def)
    moreover have "entries w2 = entries w" using entries_dir_eq [of w2 ?w1] fail by simp
    ultimately have "entries (snd (ClearCrypto d w)) = drop 0 (entries w)" by simp
    then show ?thesis by blast
  next
    case ok2: (ok es)
    obtain r3 w3 where rd: "Readdir w2 = (r3, w3)" by fastforce
    have e2: "entries w2 = entries w" using entries_dir_eq [of w2 ?w1] ok2 by simp
    from rd show ?thesis
    proof (cases rule: ReaddirE)
      case (fail op e)
      with o ok2 rd have "snd (ClearCrypto d w) = w3" by (simp add: ClearCrypto_def)
      moreover have "entries w3 = entries w" using entries_dir_eq [of w3 w2] fail e2 by simp
      ultimately have "entries (snd (ClearCrypto d w)) = drop 0 (entries w)" by simp
      then show ?thesis by blast
    next
      case ok3: (ok es3)
      obtain r w' where re: "removeEach (map fst es3) w3 = (r, w')" by fastforce
      with o ok2 rd ok3 have cc: "snd (ClearCrypto d w) = w'" by (simp add: ClearCrypto_def)
      have d3: "dir w3 = Some es3" using ok3 by simp
      have "entries w3 = entries w" using entries_dir_eq [of w3 w2] ok3 e2 by simp
      with d3 have es3: "entries w = es3" by (simp add: entries_def)
      with assms have "distinct (map fst es3)" by simp
      from removeEach_drop [OF d3 this re] obtain k where "dir w' = Some (drop k es3)" by blast
      then have "entries w' = drop k (entries w)" using es3 by (simp add: entries_def)
      with cc show ?thesis by auto
    qed
  qed
qed

lemma ClearCrypto_fault:
  assumes "dir w = Some es" "distinct (map fst es)" "k < length es"
    "faults w = None # None # replicate k None @ Some n # fs"
  shows "ClearCrypto d w
     = (Inl (PathError ''remove'' (fst (es ! k)) EIO), w\<lparr>dir := Some (drop k es), faults := fs\<rparr>)"
proof -
  let ?w3 = "w\<lparr>faults := replicate k None @ Some n # fs\<rparr>"
  have g: "getCryptoDir d w = w" using assms(1) by (rule getCryptoDir_Some)
  have o: "os_Open w = (Inr (), w\<lparr>faults := None # replicate k None @ Some n # fs\<rparr>)"
    using assms(1,4) by (simp add: os_Open_def popFault_def)
  have r: "Readdir (w\<lparr>faults := None # replicate k None @ Some n # fs\<rparr>) = (Inr (map fst es), ?w3)"
    using assms(1) by (simp add: Readdir_def popFault_def)
  have "removeEach (map fst es) ?w3
     = (Inl (PathError ''remove'' (fst (es ! k)) EIO), ?w3\<lparr>dir := Some (drop k es), faults := fs\<rparr>)"
    by (rule removeEach_fault) (use assms in simp_all)
  with g o r show ?thesis by (simp add: ClearCrypto_def)
qed

subsection \<open>\<^verbatim>\<open>ClearCrypto\<close>\<close>

text \<open>
  C8. A \<open>ClearCrypto\<close> that returns nil leaves the directory empty, and
  \<open>hasValidCertificate\<close> then returns false. It returns the error, a \<open>PathError\<close>, when
  the directory cannot be opened, when it cannot be listed (nothing is removed in either
  case), and when the removal of a file fails: if that is the file at position \<open>k\<close> of
  the listing, the \<open>k\<close> files before it are gone and the others are still there. In
  every case what is left is an end piece of the listing.
\<close>

theorem ClearCrypto_spec:
  "(\<forall>w'. ClearCrypto d w = (Inr (), w')
        \<longrightarrow> dir w' = Some [] \<and> fst (hasValidCertificate lib d w') = Returns False)
   \<and> (\<forall>err w2. os_Open (getCryptoDir d w) = (Inl err, w2)
        \<longrightarrow> ClearCrypto d w = (Inl err, w2) \<and> entries w2 = entries w)
   \<and> (\<forall>u w2 err w3. os_Open (getCryptoDir d w) = (Inr u, w2) \<and> Readdir w2 = (Inl err, w3)
        \<longrightarrow> ClearCrypto d w = (Inl err, w3) \<and> entries w3 = entries w)
   \<and> (\<forall>es k n fs. dir w = Some es \<and> distinct (map fst es) \<and> k < length es
          \<and> faults w = None # None # replicate k None @ Some n # fs
        \<longrightarrow> ClearCrypto d w
              = (Inl (PathError ''remove'' (fst (es ! k)) EIO),
                 w\<lparr>dir := Some (drop k es), faults := fs\<rparr>))
   \<and> (\<forall>err. fst (ClearCrypto d w) = Inl err \<longrightarrow> (\<exists>op name e. err = PathError op name e))
   \<and> (distinct (map fst (entries w))
        \<longrightarrow> (\<exists>k. entries (snd (ClearCrypto d w)) = drop k (entries w)))"
proof -
  have p1: "\<forall>w'. ClearCrypto d w = (Inr (), w')
        \<longrightarrow> dir w' = Some [] \<and> fst (hasValidCertificate lib d w') = Returns False"
  proof (intro allI impI)
    fix w' assume "ClearCrypto d w = (Inr (), w')"
    then show "dir w' = Some [] \<and> fst (hasValidCertificate lib d w') = Returns False"
    proof (cases rule: ClearCryptoE)
      case ok
      then have "lookupFile ''device.crt'' w' = None" by (simp add: lookupFile_def)
      with ok show ?thesis by (simp add: hasValidCertificate_no_crt)
    qed simp
  qed
  have p2: "\<forall>err w2. os_Open (getCryptoDir d w) = (Inl err, w2)
        \<longrightarrow> ClearCrypto d w = (Inl err, w2) \<and> entries w2 = entries w"
  proof (intro allI impI)
    fix err w2 assume a: "os_Open (getCryptoDir d w) = (Inl err, w2)"
    then have "dir w2 = dir (getCryptoDir d w)" by (auto elim!: os_OpenE)
    then have "entries w2 = entries w" using entries_dir_eq [of w2 "getCryptoDir d w"] by simp
    with a show "ClearCrypto d w = (Inl err, w2) \<and> entries w2 = entries w"
      by (simp add: ClearCrypto_def)
  qed
  have p3: "\<forall>u w2 err w3. os_Open (getCryptoDir d w) = (Inr u, w2) \<and> Readdir w2 = (Inl err, w3)
        \<longrightarrow> ClearCrypto d w = (Inl err, w3) \<and> entries w3 = entries w"
  proof (intro allI impI)
    fix u w2 err w3
    assume a: "os_Open (getCryptoDir d w) = (Inr u, w2) \<and> Readdir w2 = (Inl err, w3)"
    then have "dir w2 = dir (getCryptoDir d w)" "dir w3 = dir w2"
      by (auto elim!: os_OpenE ReaddirE)
    then have "entries w3 = entries w"
      using entries_dir_eq [of w2 "getCryptoDir d w"] entries_dir_eq [of w3 w2] by simp
    with a show "ClearCrypto d w = (Inl err, w3) \<and> entries w3 = entries w"
      by (simp add: ClearCrypto_def)
  qed
  have p4: "\<forall>es k n fs. dir w = Some es \<and> distinct (map fst es) \<and> k < length es
          \<and> faults w = None # None # replicate k None @ Some n # fs
        \<longrightarrow> ClearCrypto d w
              = (Inl (PathError ''remove'' (fst (es ! k)) EIO),
                 w\<lparr>dir := Some (drop k es), faults := fs\<rparr>)"
    using ClearCrypto_fault by blast
  have p5: "\<forall>err. fst (ClearCrypto d w) = Inl err \<longrightarrow> (\<exists>op name e. err = PathError op name e)"
  proof (intro allI impI)
    fix err assume a: "fst (ClearCrypto d w) = Inl err"
    obtain r w' where c: "ClearCrypto d w = (r, w')" by fastforce
    from a c have "r = Inl err" by simp
    with c show "\<exists>op name e. err = PathError op name e"
      by (auto elim!: ClearCryptoE)
  qed
  have p6: "distinct (map fst (entries w))
        \<longrightarrow> (\<exists>k. entries (snd (ClearCrypto d w)) = drop k (entries w))"
    using ClearCrypto_drop by blast
  from p1 p2 p3 p4 p5 p6 show ?thesis by blast
qed

theorem ClearCrypto_spec_witness:
  "ClearCrypto exampleDevice (exampleWorld (Some (fullDir ''-good'')) [])
     = (Inr (), exampleWorld (Some []) [])
   \<and> fst (hasValidCertificate exampleLib exampleDevice (exampleWorld (Some []) [])) = Returns False
   \<and> distinct (map fst (fullDir ''-good''))
   \<and> ClearCrypto exampleDevice
       (exampleWorld (Some (fullDir ''-good'')) [None, None, None, Some 0])
     = (Inl (PathError ''remove'' ''device.key'' EIO),
        exampleWorld (Some (drop 1 (fullDir ''-good''))) [])"
proof -
  have h1: "ClearCrypto exampleDevice (exampleWorld (Some (fullDir ''-good'')) [])
     = (Inr (), exampleWorld (Some []) [])"
    by (simp add: ClearCrypto_def example_defs syscall_defs)
  have h2: "dir (exampleWorld (Some (fullDir ''-good'')) [None, None, None, Some 0])
              = Some (fullDir ''-good'')
     \<and> distinct (map fst (fullDir ''-good'')) \<and> 1 < length (fullDir ''-good'')
     \<and> faults (exampleWorld (Some (fullDir ''-good'')) [None, None, None, Some 0])
        = None # None # replicate 1 None @ Some 0 # []"
    by (simp add: example_defs)
  have h3: "fst (fullDir ''-good'' ! 1) = ''device.key''"
    by (simp add: fullDir_def)
  have h4: "(exampleWorld (Some (fullDir ''-good'')) [None, None, None, Some 0])
              \<lparr>dir := Some (drop 1 (fullDir ''-good'')), faults := []\<rparr>
            = exampleWorld (Some (drop 1 (fullDir ''-good''))) []"
    by (simp add: exampleWorld_def)
  from ClearCrypto_spec [of exampleDevice "exampleWorld (Some (fullDir ''-good'')) []" exampleLib]
    h1
  have c1: "fst (hasValidCertificate exampleLib exampleDevice (exampleWorld (Some []) []))
              = Returns False"
    by simp
  from ClearCrypto_spec [of exampleDevice
      "exampleWorld (Some (fullDir ''-good'')) [None, None, None, Some 0]" exampleLib] h2
  have "ClearCrypto exampleDevice
       (exampleWorld (Some (fullDir ''-good'')) [None, None, None, Some 0])
     = (Inl (PathError ''remove'' (fst (fullDir ''-good'' ! 1)) EIO),
        (exampleWorld (Some (fullDir ''-good'')) [None, None, None, Some 0])
              \<lparr>dir := Some (drop 1 (fullDir ''-good'')), faults := []\<rparr>)"
    by blast
  with h1 c1 h2 h3 h4 show ?thesis by simp
qed

subsection \<open>Writing files\<close>

lemma map_entry_update:
  "AList.map_entry k g (AList.update k v es) = AList.update k (g v) es"
  by (induction es) auto

lemma content_update_eq: "f\<lparr>content := c\<rparr> = \<lparr>content = c, perm = perm f\<rparr>"
  by (cases f) simp

lemma openTruncE:
  assumes "openTrunc name mode w = (r, w')"
  obtains (fail) e where "r = Inl (PathError ''open'' name e)" "dir w' = dir w"
      "umask w' = umask w" "randReader w' = randReader w" "now w' = now w"
  | (ok) es where "r = Inr name" "dir w = Some es"
      "dir w' = Some (AList.update name
         \<lparr>content = [], perm = (case map_of es name of Some f \<Rightarrow> perm f
                                | None \<Rightarrow> mode AND NOT (umask w))\<rparr> es)"
      "umask w' = umask w" "randReader w' = randReader w" "now w' = now w"
  using assms
  by (auto simp: openTrunc_def popFault_def content_update_eq split: list.splits option.splits)

lemma writeAllE:
  assumes "writeAll name data w = (r, w')"
  obtains c where
      "dir w' = map_option (AList.map_entry name (\<lambda>f. f\<lparr>content := c\<rparr>)) (dir w)"
      "r = Inr () \<and> c = data \<or> (\<exists>k. r = Inl (PathError ''write'' name EIO) \<and> c = take k data)"
      "umask w' = umask w" "randReader w' = randReader w" "now w' = now w"
proof (cases "fst (popFault w)")
  case None
  obtain w1 where p: "popFault w = (None, w1)" using None by (cases "popFault w") simp
  then have f: "dir w1 = dir w" "umask w1 = umask w" "randReader w1 = randReader w"
      "now w1 = now w"
    by (auto simp: popFault_def split: list.splits)
  from p assms have "r = Inr ()"
    "w' = w1\<lparr>dir := map_option (AList.map_entry name (\<lambda>f. f\<lparr>content := data\<rparr>)) (dir w1)\<rparr>"
    by (simp_all add: writeAll_def)
  with f show ?thesis by (intro that[of data]) simp_all
next
  case (Some k)
  obtain w1 where p: "popFault w = (Some k, w1)" using Some by (cases "popFault w") simp
  then have f: "dir w1 = dir w" "umask w1 = umask w" "randReader w1 = randReader w"
      "now w1 = now w"
    by (auto simp: popFault_def split: list.splits)
  from p assms have "r = Inl (PathError ''write'' name EIO)"
    "w' = w1\<lparr>dir := map_option (AList.map_entry name (\<lambda>f. f\<lparr>content := take k data\<rparr>)) (dir w1)\<rparr>"
    by (simp_all add: writeAll_def)
  with f show ?thesis by (intro that[of "take k data"]) auto
qed

text \<open>
  \<open>ioutil_WriteFile\<close> either fails to open the file, and changes nothing, or leaves the
  file with the bytes it managed to write: all of \<open>data\<close> when it returns nil.
\<close>

lemma ioutil_WriteFileE:
  assumes "ioutil_WriteFile name data mode w = (r, w')"
  obtains (openFails) e where "r = Inl (PathError ''open'' name e)" "dir w' = dir w"
      "umask w' = umask w" "randReader w' = randReader w" "now w' = now w"
  | (written) es c where "dir w = Some es"
      "dir w' = Some (AList.update name
         \<lparr>content = c, perm = (case map_of es name of Some f \<Rightarrow> perm f
                               | None \<Rightarrow> mode AND NOT (umask w))\<rparr> es)"
      "r = Inr () \<and> c = data \<or> (\<exists>k. r = Inl (PathError ''write'' name EIO) \<and> c = take k data)"
      "umask w' = umask w" "randReader w' = randReader w" "now w' = now w"
proof -
  obtain r1 w1 where o: "openTrunc name mode w = (r1, w1)" by fastforce
  from o show ?thesis
  proof (cases rule: openTruncE)
    case (fail e)
    with o assms have "r = Inl (PathError ''open'' name e)" "w' = w1"
      by (simp_all add: ioutil_WriteFile_def)
    with fail show ?thesis by (intro that(1)[of e]) simp_all
  next
    case (ok es)
    with o assms have wr: "writeAll name data w1 = (r, w')"
      by (simp add: ioutil_WriteFile_def)
    from wr show ?thesis
    proof (cases rule: writeAllE)
      case (1 c)
      show ?thesis
      proof (rule that(2)[of es c])
        show "dir w = Some es" by (fact ok)
        show "dir w' = Some (AList.update name
         \<lparr>content = c, perm = (case map_of es name of Some f \<Rightarrow> perm f
                               | None \<Rightarrow> mode AND NOT (umask w))\<rparr> es)"
          using 1(1) ok(3) by (simp add: map_entry_update)
        show "r = Inr () \<and> c = data
              \<or> (\<exists>k. r = Inl (PathError ''write'' name EIO) \<and> c = take k data)"
          by (fact 1)
      qed (use 1 ok in simp_all)
    qed
  qed
qed

lemma savePEMKey_WriteFile:
  "savePEMKey lib fileName key w =
     ioutil_WriteFile fileName
       (pem_EncodeToMemory lib
          \<lparr>Type = ''RSA PRIVATE KEY'', Bytes = x509_MarshalPKCS1PrivateKey lib key\<rparr>) 438 w"
  by (simp add: savePEMKey_def os_Create_def pem_Encode_def ioutil_WriteFile_def
      split: prod.splits sum.splits)

lemma savePublicPEMKey_WriteFile:
  "savePublicPEMKey lib fileName pubkey w =
     (case x509_MarshalPKIXPublicKey lib pubkey of
        Inl err \<Rightarrow> (Inl err, w)
      | Inr pkixBytes \<Rightarrow>
          ioutil_WriteFile fileName
            (pem_EncodeToMemory lib \<lparr>Type = ''PUBLIC KEY'', Bytes = pkixBytes\<rparr>) 438 w)"
  by (simp add: savePublicPEMKey_def os_Create_def pem_Encode_def ioutil_WriteFile_def
      split: prod.splits sum.splits)

subsection \<open>\<^verbatim>\<open>ensureKeyPair\<close>\<close>

lemma fileExists_getCryptoDir: "fileExists name w \<Longrightarrow> getCryptoDir d w = w"
  by (auto simp: fileExists_def lookupFile_def intro: getCryptoDir_Some split: option.splits)

text \<open>
  The ways \<open>ensureKeyPair\<close> can go: the key is there and nothing happens; the clearing
  fails; something fails after the clearing and before the key file is created, and
  the directory holds at most \<^verbatim>\<open>device.pub\<close>; or the key file is created after
  \<^verbatim>\<open>device.pub\<close> was written, and then written itself.
\<close>

lemma ensureKeyPairE:
  assumes "ensureKeyPair lib d w = (r, w')"
  obtains (present) "fileExists ''device.key'' w" "r = Inr ()" "w' = w"
  | (clearFails) op name e where "\<not> fileExists ''device.key'' w"
      "r = Inl (PathError op name e)"
      "ClearCrypto d (getCryptoDir d w) = (Inl (PathError op name e), w')"
      "\<And>n. lookupFile n w = None \<Longrightarrow> lookupFile n w' = None"
      "umask w' = umask w" "now w' = now w"
  | (noKey) err es' where "\<not> fileExists ''device.key'' w" "r = Inl err"
      "dir w' = Some es'" "es' = [] \<or> (\<exists>f. es' = [(''device.pub'', f)])"
      "umask w' = umask w" "now w' = now w"
  | (keyWritten) k rr pkix c w2 where "\<not> fileExists ''device.key'' w"
      "ClearCrypto d (getCryptoDir d w) = (Inr (), w2)" "dir w2 = Some []"
      "rsa_GenerateKey lib (randReader w) 2048 = (Inr k, rr)"
      "x509_MarshalPKIXPublicKey lib (PublicKey k) = Inr pkix"
      "dir w' = Some
         [(''device.pub'',
           \<lparr>content = pem_EncodeToMemory lib \<lparr>Type = ''PUBLIC KEY'', Bytes = pkix\<rparr>,
            perm = 438 AND NOT (umask w)\<rparr>),
          (''device.key'', \<lparr>content = c, perm = 438 AND NOT (umask w)\<rparr>)]"
      "r = Inr () \<and> c = pem_EncodeToMemory lib
              \<lparr>Type = ''RSA PRIVATE KEY'', Bytes = x509_MarshalPKCS1PrivateKey lib k\<rparr>
       \<or> (\<exists>j. r = Inl (PathError ''write'' ''device.key'' EIO)
              \<and> c = take j (pem_EncodeToMemory lib
                  \<lparr>Type = ''RSA PRIVATE KEY'', Bytes = x509_MarshalPKCS1PrivateKey lib k\<rparr>))"
      "randReader w' = rr" "umask w' = umask w" "now w' = now w"
proof (cases "lookupFile ''device.key'' w")
  case (Some f)
  then have ex: "fileExists ''device.key'' w" by (simp add: fileExists_def)
  then have g: "getCryptoDir d w = w" by (rule fileExists_getCryptoDir)
  with Some assms have "r = Inr ()" "w' = w"
    by (simp_all add: ensureKeyPair_def os_Stat_def)
  with ex show ?thesis by (intro that(1)) simp_all
next
  case None
  then have nex: "\<not> fileExists ''device.key'' w" by (simp add: fileExists_def)
  let ?w1 = "getCryptoDir d w"
  have st: "os_Stat ''device.key'' ?w1 = Inl (PathError ''stat'' ''device.key'' ENOENT)"
    using None by (simp add: os_Stat_def)
  obtain r2 w2 where cl: "ClearCrypto d ?w1 = (r2, w2)" by fastforce
  from cl show ?thesis
  proof (cases rule: ClearCryptoE)
    case (fail op name e)
    with st cl assms have rw: "r = Inl (PathError op name e)" "w' = w2"
      by (simp_all add: ensureKeyPair_def)
    show ?thesis
    proof (rule that(2)[of op name e])
      show "ClearCrypto d ?w1 = (Inl (PathError op name e), w')" using cl fail rw by simp
      show "\<And>n. lookupFile n w = None \<Longrightarrow> lookupFile n w' = None"
        using fail(2) rw by simp
    qed (use nex rw fail in simp_all)
  next
    case ok
    have cl': "ClearCrypto d ?w1 = (Inr (), w2)" using cl ok by simp
    obtain g rr where gen: "rsa_GenerateKey lib (randReader w2) 2048 = (g, rr)" by fastforce
    have rnd: "randReader w2 = randReader w" using ok by simp
    show ?thesis
    proof (cases g)
      case (Inl err)
      with st cl' gen assms have "r = Inl err" "w' = w2\<lparr>randReader := rr\<rparr>"
        by (simp_all add: ensureKeyPair_def)
      with ok nex show ?thesis by (intro that(3)[of err "[]"]) simp_all
    next
      case (Inr k)
      let ?w3 = "w2\<lparr>randReader := rr\<rparr>"
      have g3: "getCryptoDir d ?w3 = ?w3" using ok by (intro getCryptoDir_Some) simp
      have step: "ensureKeyPair lib d w =
        (case savePublicPEMKey lib ''device.pub'' (PublicKey k) ?w3 of
           (Inl err, w5) \<Rightarrow> (Inl err, w5)
         | (Inr u, w5) \<Rightarrow> savePEMKey lib ''device.key'' k w5)"
        using st cl' gen Inr g3 by (simp add: ensureKeyPair_def)
      show ?thesis
      proof (cases "x509_MarshalPKIXPublicKey lib (PublicKey k)")
        case (Inl err)
        with step assms have "r = Inl err" "w' = ?w3"
          by (simp_all add: savePublicPEMKey_WriteFile)
        with ok nex show ?thesis by (intro that(3)[of err "[]"]) simp_all
      next
        case pk: (Inr pkix)
        let ?pub = "pem_EncodeToMemory lib \<lparr>Type = ''PUBLIC KEY'', Bytes = pkix\<rparr>"
        let ?key = "pem_EncodeToMemory lib
              \<lparr>Type = ''RSA PRIVATE KEY'', Bytes = x509_MarshalPKCS1PrivateKey lib k\<rparr>"
        obtain r5 w5 where wp: "ioutil_WriteFile ''device.pub'' ?pub 438 ?w3 = (r5, w5)"
          by fastforce
        have sp: "savePublicPEMKey lib ''device.pub'' (PublicKey k) ?w3 = (r5, w5)"
          using wp pk by (simp add: savePublicPEMKey_WriteFile)
        from wp show ?thesis
        proof (cases rule: ioutil_WriteFileE)
          case (openFails e)
          with step sp assms have "r = Inl (PathError ''open'' ''device.pub'' e)" "w' = w5"
            by simp_all
          with openFails ok nex show ?thesis
            by (intro that(3)[of "PathError ''open'' ''device.pub'' e" "[]"]) simp_all
        next
          case (written es c)
          from written(1) ok have es: "es = []" by simp
          let ?fp = "\<lparr>content = c, perm = 438 AND NOT (umask w)\<rparr>"
          have d5: "dir w5 = Some [(''device.pub'', ?fp)]"
            using written(2) es ok by simp
          have env5: "umask w5 = umask w" "randReader w5 = rr" "now w5 = now w"
            using written ok by simp_all
          show ?thesis
          proof (cases r5)
            case (Inl err)
            with step sp assms have "r = Inl err" "w' = w5" by simp_all
            with d5 env5 nex show ?thesis
              by (intro that(3)[of err "[(''device.pub'', ?fp)]"]) simp_all
          next
            case u: (Inr u)
            with written(3) have c: "c = ?pub" by auto
            from step sp u assms have wk: "savePEMKey lib ''device.key'' k w5 = (r, w')"
              by simp
            then have wk': "ioutil_WriteFile ''device.key'' ?key 438 w5 = (r, w')"
              by (simp add: savePEMKey_WriteFile)
            from wk' show ?thesis
            proof (cases rule: ioutil_WriteFileE)
              case (openFails e)
              with d5 env5 nex show ?thesis
                by (intro that(3)[of "PathError ''open'' ''device.key'' e"
                      "[(''device.pub'', ?fp)]"]) simp_all
            next
              case w: (written es' c')
              from w(1) d5 have es': "es' = [(''device.pub'', ?fp)]" by simp
              show ?thesis
              proof (rule that(4)[of w2 k rr pkix c'])
                show "ClearCrypto d ?w1 = (Inr (), w2)" by (fact cl')
                show "dir w2 = Some []" by (fact ok)
                show "rsa_GenerateKey lib (randReader w) 2048 = (Inr k, rr)"
                  using gen Inr rnd by simp
                show "x509_MarshalPKIXPublicKey lib (PublicKey k) = Inr pkix" by (fact pk)
                show "dir w' = Some
                   [(''device.pub'', \<lparr>content = ?pub, perm = 438 AND NOT (umask w)\<rparr>),
                    (''device.key'', \<lparr>content = c', perm = 438 AND NOT (umask w)\<rparr>)]"
                  using w(2) es' c env5 by simp
                show "r = Inr () \<and> c' = ?key
                      \<or> (\<exists>j. r = Inl (PathError ''write'' ''device.key'' EIO)
                             \<and> c' = take j ?key)"
                  by (fact w(3))
              qed (use nex w env5 in simp_all)
            qed
          qed
        qed
      qed
    qed
  qed
qed



text \<open>
  C4. When \<^verbatim>\<open>device.key\<close> is absent, whatever else the directory holds, an
  \<open>ensureKeyPair\<close> that returns nil has first cleared the directory (\<open>ClearCrypto\<close>
  returned nil and left it empty), then asked \<^verbatim>\<open>rsa.GenerateKey\<close> for a key of 2048
  bits, and leaves a directory with exactly two files: \<^verbatim>\<open>device.pub\<close>, the PEM block
  \<^verbatim>\<open>PUBLIC KEY\<close> of that key's public part, and \<^verbatim>\<open>device.key\<close>, its PEM block
  \<^verbatim>\<open>RSA PRIVATE KEY\<close>.
\<close>

theorem ensureKeyPair_regenerates:
  assumes "\<not> fileExists ''device.key'' w" and "ensureKeyPair lib d w = (Inr (), w')"
  shows "(\<exists>w2 k rr pkix.
           ClearCrypto d (getCryptoDir d w) = (Inr (), w2) \<and> dir w2 = Some []
         \<and> rsa_GenerateKey lib (randReader w) 2048 = (Inr k, rr)
         \<and> x509_MarshalPKIXPublicKey lib (PublicKey k) = Inr pkix
         \<and> dir w' = Some
             [(''device.pub'',
               \<lparr>content = pem_EncodeToMemory lib \<lparr>Type = ''PUBLIC KEY'', Bytes = pkix\<rparr>,
                perm = 438 AND NOT (umask w)\<rparr>),
              (''device.key'',
               \<lparr>content = pem_EncodeToMemory lib
                  \<lparr>Type = ''RSA PRIVATE KEY'', Bytes = x509_MarshalPKCS1PrivateKey lib k\<rparr>,
                perm = 438 AND NOT (umask w)\<rparr>)])
         \<and> map fst (entries w') = [''device.pub'', ''device.key'']"
  using assms(2)
proof (cases rule: ensureKeyPairE)
  case present
  with assms(1) show ?thesis by simp
next
  case (keyWritten k rr pkix c w2)
  from keyWritten(7) have "c = pem_EncodeToMemory lib
                  \<lparr>Type = ''RSA PRIVATE KEY'', Bytes = x509_MarshalPKCS1PrivateKey lib k\<rparr>"
    by auto
  with keyWritten show ?thesis by (simp add: entries_def)
qed simp_all

theorem ensureKeyPair_regenerates_witness:
  "\<not> fileExists ''device.key'' (exampleWorld (Some (drop 2 (fullDir ''-good''))) [])
   \<and> fileExists ''device.csr'' (exampleWorld (Some (drop 2 (fullDir ''-good''))) [])
   \<and> fileExists ''device.crt'' (exampleWorld (Some (drop 2 (fullDir ''-good''))) [])
   \<and> ensureKeyPair exampleLib exampleDevice (exampleWorld (Some (drop 2 (fullDir ''-good''))) [])
       = (Inr (), (exampleWorld (Some (take 2 (fullDir ''''))) [])\<lparr>randReader := 1\<rparr>)
   \<and> map fst (entries ((exampleWorld (Some (take 2 (fullDir ''''))) [])\<lparr>randReader := 1\<rparr>))
       = [''device.pub'', ''device.key'']"
proof -
  have h1: "\<not> fileExists ''device.key'' (exampleWorld (Some (drop 2 (fullDir ''-good''))) [])"
    "fileExists ''device.csr'' (exampleWorld (Some (drop 2 (fullDir ''-good''))) [])"
    "fileExists ''device.crt'' (exampleWorld (Some (drop 2 (fullDir ''-good''))) [])"
    by (simp_all add: fileExists_def lookupFile_def example_defs)
  have h2: "ensureKeyPair exampleLib exampleDevice
              (exampleWorld (Some (drop 2 (fullDir ''-good''))) [])
       = (Inr (), (exampleWorld (Some (take 2 (fullDir ''''))) [])\<lparr>randReader := 1\<rparr>)"
    by (simp add: keypair_defs syscall_defs example_defs)
  from ensureKeyPair_regenerates [OF h1(1) h2] h1 h2 show ?thesis by simp
qed

subsection \<open>\<^verbatim>\<open>ensureCSR\<close>\<close>

lemma update_absent: "map_of es k = None \<Longrightarrow> AList.update k v es = es @ [(k, v)]"
  by (induction es) (auto split: if_splits)

lemma Create_Encode_WriteFile:
  "(case os_Create name w of
      (Inl err, w1) \<Rightarrow> (Inl err, w1)
    | (Inr out, w1) \<Rightarrow> pem_Encode lib out b w1)
   = ioutil_WriteFile name (pem_EncodeToMemory lib b) 438 w"
  by (simp add: os_Create_def pem_Encode_def ioutil_WriteFile_def
      split: prod.splits sum.splits)

lemma ensureKeyPair_ok_dir:
  assumes "ensureKeyPair lib d w = (Inr (), w1)"
  shows "\<exists>es. dir w1 = Some es" "fileExists ''device.key'' w1" "umask w1 = umask w"
    "now w1 = now w"
    "\<And>n. n \<noteq> ''device.pub'' \<Longrightarrow> n \<noteq> ''device.key'' \<Longrightarrow> lookupFile n w = None
       \<Longrightarrow> lookupFile n w1 = None"
proof -
  from assms show "\<exists>es. dir w1 = Some es"
    by (cases rule: ensureKeyPairE)
       (auto simp: fileExists_def lookupFile_def split: option.splits)
  from assms show "fileExists ''device.key'' w1"
    by (cases rule: ensureKeyPairE) (auto simp: fileExists_def lookupFile_def)
  from assms show "umask w1 = umask w" "now w1 = now w"
    by (cases rule: ensureKeyPairE; simp)+
  fix n assume "n \<noteq> ''device.pub''" "n \<noteq> ''device.key''" "lookupFile n w = None"
  with assms show "lookupFile n w1 = None"
    by (cases rule: ensureKeyPairE) (auto simp: lookupFile_def)
qed

lemma ensureCSRE:
  assumes "ensureCSR lib d w = (r, w')"
  obtains (keyFails) err where "ensureKeyPair lib d w = (Inl err, w')" "r = Inl err"
  | (csrPresent) "ensureKeyPair lib d w = (Inr (), w')" "fileExists ''device.csr'' w'"
      "r = Inr ()"
  | (noWrite) w1 err where "ensureKeyPair lib d w = (Inr (), w1)"
      "\<not> fileExists ''device.csr'' w1" "r = Inl err" "dir w' = dir w1"
  | (written) w1 f privPem rest privateKey csrBytes rr c where
      "ensureKeyPair lib d w = (Inr (), w1)" "\<not> fileExists ''device.csr'' w1"
      "lookupFile ''device.key'' w1 = Some f"
      "pem_Decode lib (content f) = Some (privPem, rest)"
      "parsePrivateKey lib (Bytes privPem) = Inr (RSAKey privateKey)"
      "x509_CreateCertificateRequest lib (randReader w1) (csrTemplate d) privateKey
         = (Inr csrBytes, rr)"
      "dir w' = Some (entries w1 @
         [(''device.csr'', \<lparr>content = c, perm = 438 AND NOT (umask w)\<rparr>)])"
      "r = Inr () \<and> c = pem_EncodeToMemory lib
              \<lparr>Type = ''CERTIFICATE REQUEST'', Bytes = csrBytes\<rparr>
       \<or> (\<exists>j. r = Inl (PathError ''write'' ''device.csr'' EIO)
              \<and> c = take j (pem_EncodeToMemory lib
                  \<lparr>Type = ''CERTIFICATE REQUEST'', Bytes = csrBytes\<rparr>))"
proof -
  obtain r1 w1 where kp: "ensureKeyPair lib d w = (r1, w1)" by fastforce
  show ?thesis
  proof (cases r1)
    case (Inl err)
    with kp assms have "r = Inl err" "w' = w1" by (simp_all add: ensureCSR_def)
    with kp Inl show ?thesis by (intro that(1)[of err]) simp_all
  next
    case (Inr u)
    with kp have kp': "ensureKeyPair lib d w = (Inr (), w1)" by simp
    from ensureKeyPair_ok_dir(1) [OF kp'] obtain es where es: "dir w1 = Some es" by blast
    then have g: "getCryptoDir d w1 = w1" by (rule getCryptoDir_Some)
    have um: "umask w1 = umask w" by (rule ensureKeyPair_ok_dir(3) [OF kp'])
    have ent: "entries w1 = es" using es by (simp add: entries_def)
    show ?thesis
    proof (cases "lookupFile ''device.csr'' w1")
      case (Some info)
      with kp' g assms have "r = Inr ()" "w' = w1"
        by (simp_all add: ensureCSR_def os_Stat_def)
      with kp' Some show ?thesis by (intro that(2)) (simp_all add: fileExists_def)
    next
      case None
      then have nex: "\<not> fileExists ''device.csr'' w1" by (simp add: fileExists_def)
      obtain r4 w4 where rd: "ioutil_ReadFile ''device.key'' w1 = (r4, w4)" by fastforce
      have st: "os_Stat ''device.csr'' w1 = Inl (PathError ''stat'' ''device.csr'' ENOENT)"
        using None by (simp add: os_Stat_def)
      note step = ensureCSR_def Let_def Create_Encode_WriteFile kp' g st
      from rd show ?thesis
      proof (cases rule: ioutil_ReadFileE)
        case (fail err)
        with rd assms have "r = Inl err" "w' = w4" by (simp_all add: step)
        with kp' nex fail show ?thesis by (intro that(3)[of w1 err]) simp_all
      next
        case (ok f)
        note f = ok
        show ?thesis
        proof (cases "pem_Decode lib (content f)")
          case None
          with rd f assms have
            "r = Inl (ErrorsNew
               ''Corrupted data in Device Private key, clearing the crypto store'')" "w' = w4"
            by (simp_all add: step)
          with kp' nex f show ?thesis
            by (intro that(3)[of w1 "ErrorsNew
               ''Corrupted data in Device Private key, clearing the crypto store''"]) simp_all
        next
          case (Some pr)
          obtain privPem rest where pr: "pr = (privPem, rest)" by (cases pr)
          show ?thesis
          proof (cases "parsePrivateKey lib (Bytes privPem)")
            case (Inl err)
            with rd f Some pr assms have "r = Inl err" "w' = w4" by (simp_all add: step)
            with kp' nex f show ?thesis by (intro that(3)[of w1 err]) simp_all
          next
            case pk: (Inr parsedKey)
            show ?thesis
            proof (cases "assertRSA parsedKey")
              case None
              with rd f Some pr pk assms have
                "r = Inl (ErrorsNew
                   ''Unable to parse RSA private key, clearing the crypto store'')" "w' = w4"
                by (simp_all add: step)
              with kp' nex f show ?thesis
                by (intro that(3)[of w1 "ErrorsNew
                   ''Unable to parse RSA private key, clearing the crypto store''"]) simp_all
            next
              case k: (Some privateKey)
              then have pkr: "parsedKey = RSAKey privateKey" by (cases parsedKey) simp_all
              obtain rc rr where cr: "x509_CreateCertificateRequest lib (randReader w1)
                  (csrTemplate d) privateKey = (rc, rr)" by fastforce
              have r4: "randReader w4 = randReader w1" using f by simp
              show ?thesis
              proof (cases rc)
                case (Inl err)
                with rd f Some pr pk k cr r4 assms have
                  "r = Inl err" "w' = w4\<lparr>randReader := rr\<rparr>" by (simp_all add: step)
                with kp' nex f show ?thesis by (intro that(3)[of w1 err]) simp_all
              next
                case (Inr csrBytes)
                let ?enc = "pem_EncodeToMemory lib
                    \<lparr>Type = ''CERTIFICATE REQUEST'', Bytes = csrBytes\<rparr>"
                from rd f Some pr pk k cr r4 Inr assms have
                  wf: "ioutil_WriteFile ''device.csr'' ?enc 438 (w4\<lparr>randReader := rr\<rparr>)
                         = (r, w')" by (simp add: step)
                from wf show ?thesis
                proof (cases rule: ioutil_WriteFileE)
                  case (openFails e)
                  with kp' nex f show ?thesis
                    by (intro that(3)[of w1 "PathError ''open'' ''device.csr'' e"]) simp_all
                next
                  case (written es' c)
                  from written(1) f es have es': "es' = es" by simp
                  have m: "map_of es ''device.csr'' = None"
                    using None es by (simp add: lookupFile_def)
                  show ?thesis
                  proof (rule that(4)[of w1 f privPem rest privateKey csrBytes rr c])
                    show "ensureKeyPair lib d w = (Inr (), w1)" by (fact kp')
                    show "\<not> fileExists ''device.csr'' w1" by (fact nex)
                    show "lookupFile ''device.key'' w1 = Some f" by (fact f)
                    show "pem_Decode lib (content f) = Some (privPem, rest)"
                      using Some pr by simp
                    show "parsePrivateKey lib (Bytes privPem) = Inr (RSAKey privateKey)"
                      using pk pkr by simp
                    show "x509_CreateCertificateRequest lib (randReader w1) (csrTemplate d)
                            privateKey = (Inr csrBytes, rr)"
                      using cr Inr by simp
                    show "dir w' = Some (entries w1 @
                       [(''device.csr'', \<lparr>content = c, perm = 438 AND NOT (umask w)\<rparr>)])"
                      using written(2) es' m ent f um by (simp add: update_absent)
                    show "r = Inr () \<and> c = ?enc
                       \<or> (\<exists>j. r = Inl (PathError ''write'' ''device.csr'' EIO)
                              \<and> c = take j ?enc)"
                      by (fact written(3))
                  qed
                qed
              qed
            qed
          qed
        qed
      qed
    qed
  qed
qed




text \<open>
  C10. Once the key pair is ensured (in \<open>w1\<close>, where the directory exists, so that
  \<open>getCryptoDir\<close> changes nothing), with no \<^verbatim>\<open>device.csr\<close> and \<^verbatim>\<open>device.key\<close> read:
  when the bytes read hold no PEM block, when the block parses neither as PKCS#1 nor as
  PKCS#8, and when it parses to a key that is not RSA, \<open>ensureCSR\<close> returns the error
  in the world the read left, whose files are those the key pair step left; they are
  the files of the start when \<^verbatim>\<open>device.key\<close> existed then. Nothing is cleared, whatever
  the two messages say.
\<close>

theorem ensureCSR_corrupt_key_keeps_files:
  assumes "ensureKeyPair lib d w = (Inr (), w1)"
    and "\<not> fileExists ''device.csr'' w1"
    and "ioutil_ReadFile ''device.key'' w1 = (Inr priv, w4)"
  shows "(pem_Decode lib priv = None
          \<longrightarrow> ensureCSR lib d w =
               (Inl (ErrorsNew
                  ''Corrupted data in Device Private key, clearing the crypto store''), w4))
       \<and> (\<forall>privPem rest err1 err. pem_Decode lib priv = Some (privPem, rest)
            \<and> x509_ParsePKCS1PrivateKey lib (Bytes privPem) = Inl err1
            \<and> x509_ParsePKCS8PrivateKey lib (Bytes privPem) = Inl err
          \<longrightarrow> ensureCSR lib d w = (Inl err, w4))
       \<and> (\<forall>privPem rest err1 parsedKey. pem_Decode lib priv = Some (privPem, rest)
            \<and> x509_ParsePKCS1PrivateKey lib (Bytes privPem) = Inl err1
            \<and> x509_ParsePKCS8PrivateKey lib (Bytes privPem) = Inr parsedKey
            \<and> assertRSA parsedKey = None
          \<longrightarrow> ensureCSR lib d w =
               (Inl (ErrorsNew
                  ''Unable to parse RSA private key, clearing the crypto store''), w4))
       \<and> entries w4 = entries w1
       \<and> (fileExists ''device.key'' w \<longrightarrow> entries w4 = entries w)"
proof -
  from ensureKeyPair_ok_dir(1) [OF assms(1)] obtain es where "dir w1 = Some es" by blast
  then have g: "getCryptoDir d w1 = w1" by (rule getCryptoDir_Some)
  have st: "os_Stat ''device.csr'' w1 = Inl (PathError ''stat'' ''device.csr'' ENOENT)"
    using assms(2) by (simp add: os_Stat_def fileExists_def)
  note step = ensureCSR_def Let_def parsePrivateKey_def assms(1,3) g st
  have p1: "pem_Decode lib priv = None
          \<longrightarrow> ensureCSR lib d w =
               (Inl (ErrorsNew
                  ''Corrupted data in Device Private key, clearing the crypto store''), w4)"
    by (simp add: step)
  have p2: "\<forall>privPem rest err1 err. pem_Decode lib priv = Some (privPem, rest)
            \<and> x509_ParsePKCS1PrivateKey lib (Bytes privPem) = Inl err1
            \<and> x509_ParsePKCS8PrivateKey lib (Bytes privPem) = Inl err
          \<longrightarrow> ensureCSR lib d w = (Inl err, w4)"
    by (simp add: step)
  have p3: "\<forall>privPem rest err1 parsedKey. pem_Decode lib priv = Some (privPem, rest)
            \<and> x509_ParsePKCS1PrivateKey lib (Bytes privPem) = Inl err1
            \<and> x509_ParsePKCS8PrivateKey lib (Bytes privPem) = Inr parsedKey
            \<and> assertRSA parsedKey = None
          \<longrightarrow> ensureCSR lib d w =
               (Inl (ErrorsNew
                  ''Unable to parse RSA private key, clearing the crypto store''), w4)"
    by (simp add: step)
  from assms(3) have "dir w4 = dir w1" by (auto elim!: ioutil_ReadFileE)
  then have p4: "entries w4 = entries w1" by (rule entries_dir_eq)
  have p5: "fileExists ''device.key'' w \<longrightarrow> entries w4 = entries w"
  proof
    assume "fileExists ''device.key'' w"
    with assms(1) have "w1 = w" by (cases rule: ensureKeyPairE) simp_all
    with p4 show "entries w4 = entries w" by simp
  qed
  from p1 p2 p3 p4 p5 show ?thesis by blast
qed

text \<open>A key file that holds no PEM block, one whose block is no key, and an ECDSA key.\<close>

theorem ensureCSR_corrupt_key_keeps_files_witness:
  "ensureCSR exampleLib exampleDevice
     (exampleWorld (Some [(''device.key'', \<lparr>content = ''junk'', perm = 420\<rparr>)]) [])
   = (Inl (ErrorsNew ''Corrupted data in Device Private key, clearing the crypto store''),
      exampleWorld (Some [(''device.key'', \<lparr>content = ''junk'', perm = 420\<rparr>)]) [])
   \<and> ensureCSR exampleLib exampleDevice
     (exampleWorld (Some [(''device.key'', \<lparr>content = ''-bad'', perm = 420\<rparr>)]) [])
   = (Inl (LibError ''x509: failed to parse private key''),
      exampleWorld (Some [(''device.key'', \<lparr>content = ''-bad'', perm = 420\<rparr>)]) [])
   \<and> ensureCSR exampleLib exampleDevice
     (exampleWorld (Some [(''device.key'', \<lparr>content = ''-e'', perm = 420\<rparr>)]) [])
   = (Inl (ErrorsNew ''Unable to parse RSA private key, clearing the crypto store''),
      exampleWorld (Some [(''device.key'', \<lparr>content = ''-e'', perm = 420\<rparr>)]) [])"
proof -
  have k: "\<And>c. ensureKeyPair exampleLib exampleDevice
       (exampleWorld (Some [(''device.key'', \<lparr>content = c, perm = 420\<rparr>)]) [])
     = (Inr (), exampleWorld (Some [(''device.key'', \<lparr>content = c, perm = 420\<rparr>)]) [])"
    by (simp add: keypair_defs syscall_defs example_defs)
  have n: "\<And>c. \<not> fileExists ''device.csr''
       (exampleWorld (Some [(''device.key'', \<lparr>content = c, perm = 420\<rparr>)]) [])"
    by (simp add: fileExists_def lookupFile_def exampleWorld_def)
  have r: "\<And>c. ioutil_ReadFile ''device.key''
       (exampleWorld (Some [(''device.key'', \<lparr>content = c, perm = 420\<rparr>)]) [])
     = (Inr c, exampleWorld (Some [(''device.key'', \<lparr>content = c, perm = 420\<rparr>)]) [])"
    by (simp add: syscall_defs exampleWorld_def)
  have l: "pem_Decode exampleLib ''junk'' = None"
    "pem_Decode exampleLib ''-bad'' = Some (\<lparr>Type = ''CERTIFICATE'', Bytes = ''bad''\<rparr>, [])"
    "x509_ParsePKCS1PrivateKey exampleLib ''bad''
       = Inl (LibError ''x509: failed to parse private key'')"
    "x509_ParsePKCS8PrivateKey exampleLib ''bad''
       = Inl (LibError ''x509: failed to parse private key'')"
    "pem_Decode exampleLib ''-e'' = Some (\<lparr>Type = ''CERTIFICATE'', Bytes = ''e''\<rparr>, [])"
    "x509_ParsePKCS1PrivateKey exampleLib ''e''
       = Inl (LibError ''x509: failed to parse private key'')"
    "x509_ParsePKCS8PrivateKey exampleLib ''e'' = Inr (ECDSAKey ''e'')"
    by (simp_all add: exampleLib_def)
  from ensureCSR_corrupt_key_keeps_files [OF k n r, of "''junk''"] l
  have c1: "ensureCSR exampleLib exampleDevice
     (exampleWorld (Some [(''device.key'', \<lparr>content = ''junk'', perm = 420\<rparr>)]) [])
   = (Inl (ErrorsNew ''Corrupted data in Device Private key, clearing the crypto store''),
      exampleWorld (Some [(''device.key'', \<lparr>content = ''junk'', perm = 420\<rparr>)]) [])"
    by simp
  from ensureCSR_corrupt_key_keeps_files [OF k n r, of "''-bad''"] l
  have c2: "ensureCSR exampleLib exampleDevice
     (exampleWorld (Some [(''device.key'', \<lparr>content = ''-bad'', perm = 420\<rparr>)]) [])
   = (Inl (LibError ''x509: failed to parse private key''),
      exampleWorld (Some [(''device.key'', \<lparr>content = ''-bad'', perm = 420\<rparr>)]) [])"
    by simp
  from ensureCSR_corrupt_key_keeps_files [OF k n r, of "''-e''"] l
  have c3: "ensureCSR exampleLib exampleDevice
     (exampleWorld (Some [(''device.key'', \<lparr>content = ''-e'', perm = 420\<rparr>)]) [])
   = (Inl (ErrorsNew ''Unable to parse RSA private key, clearing the crypto store''),
      exampleWorld (Some [(''device.key'', \<lparr>content = ''-e'', perm = 420\<rparr>)]) [])"
    by simp
  from c1 c2 c3 show ?thesis by simp
qed

subsection \<open>\<^verbatim>\<open>saveCertificateFromString\<close>\<close>

lemma ownerOnly_masked: "ownerOnly (384 AND NOT u)"
  unfolding ownerOnly_def by (simp add: and.assoc and.commute and.left_commute)




subsection \<open>The key file never without the public key file\<close>

lemma ioutil_ReadFile_dir: "dir (snd (ioutil_ReadFile name w)) = dir w"
  by (simp add: ioutil_ReadFile_def popFault_def split: list.splits option.splits)

lemma tls_LoadX509KeyPair_dir: "dir (snd (tls_LoadX509KeyPair lib c k w)) = dir w"
proof -
  obtain r w' where l: "tls_LoadX509KeyPair lib c k w = (r, w')" by fastforce
  then have "dir w' = dir w" by (cases rule: tls_LoadX509KeyPairE) simp_all
  with l show ?thesis by simp
qed

lemma getTLSConfig_lookup [simp]:
  "lookupFile n (snd (getTLSConfig lib d w)) = lookupFile n w"
proof -
  let ?w2 = "getCryptoDir d (getCryptoDir d w)"
  have "snd (getTLSConfig lib d w) = snd (tls_LoadX509KeyPair lib ''device.crt'' ''device.key'' ?w2)"
    by (simp add: getTLSConfig_def split: prod.splits sum.splits)
  then have "dir (snd (getTLSConfig lib d w)) = dir ?w2"
    by (simp add: tls_LoadX509KeyPair_dir)
  from lookupFile_dir_eq [OF this] show ?thesis by simp
qed

lemma getCSRString_lookup [simp]:
  "lookupFile n (snd (getCSRString d w)) = lookupFile n w"
  using lookupFile_dir_eq [OF ioutil_ReadFile_dir [of "''device.csr''" "getCryptoDir d w"]]
  by (simp add: getCSRString_def)

lemma hasValidCertificate_lookup [simp]:
  "lookupFile n (snd (hasValidCertificate lib d w)) = lookupFile n w"
proof -
  let ?w2 = "getCryptoDir d (getCryptoDir d w)"
  obtain r w3 where l: "tls_LoadX509KeyPair lib ''device.crt'' ''device.key'' ?w2 = (r, w3)"
    by fastforce
  have d3: "dir w3 = dir ?w2"
    using tls_LoadX509KeyPair_dir [of lib "''device.crt''" "''device.key''" ?w2] l by simp
  have l3: "lookupFile n w3 = lookupFile n w" using lookupFile_dir_eq [OF d3] by simp
  obtain r5 w5 where rd: "ioutil_ReadFile ''device.crt'' (getCryptoDir d w3) = (r5, w5)"
    by fastforce
  have "dir w5 = dir (getCryptoDir d w3)"
    using ioutil_ReadFile_dir [of "''device.crt''" "getCryptoDir d w3"] rd by simp
  from lookupFile_dir_eq [OF this] l3 have l5: "lookupFile n w5 = lookupFile n w" by simp
  have "snd (hasValidCertificate lib d w) = w3 \<or> snd (hasValidCertificate lib d w) = w5"
    using l rd by (simp add: hasValidCertificate_def split: sum.splits option.splits prod.splits)
  with l3 l5 show ?thesis by auto
qed

lemma saveCertificateFromString_lookup:
  "n \<noteq> ''device.crt'' \<Longrightarrow>
     lookupFile n (snd (saveCertificateFromString lib d s w)) = lookupFile n w"
proof -
  assume n: "n \<noteq> ''device.crt''"
  let ?w1 = "getCryptoDir d w"
  obtain r w' where wf: "ioutil_WriteFile ''device.crt'' s 384 ?w1 = (r, w')" by fastforce
  from wf have "lookupFile n w' = lookupFile n ?w1"
  proof (cases rule: ioutil_WriteFileE)
    case (openFails e)
    then show ?thesis by (simp add: lookupFile_def)
  next
    case (written es c)
    with n show ?thesis by (simp add: lookupFile_def update_conv')
  qed
  with wf show ?thesis
    by (cases "pem_Decode lib s") (simp_all add: saveCertificateFromString_def)
qed

lemma ensureKeyPair_keyImpliesPub:
  "keyImpliesPub w \<Longrightarrow> keyImpliesPub (snd (ensureKeyPair lib d w))"
proof -
  assume inv: "keyImpliesPub w"
  obtain r w' where e: "ensureKeyPair lib d w = (r, w')" by fastforce
  from e have "keyImpliesPub w'"
  proof (cases rule: ensureKeyPairE)
    case present
    with inv show ?thesis by simp
  next
    case (clearFails op name e)
    from clearFails(1) have "lookupFile ''device.key'' w = None" by (simp add: fileExists_def)
    then have "lookupFile ''device.key'' w' = None" by (rule clearFails(4))
    then show ?thesis by (simp add: keyImpliesPub_def fileExists_def)
  next
    case (noKey err es')
    then show ?thesis by (auto simp: keyImpliesPub_def fileExists_def lookupFile_def)
  next
    case (keyWritten k rr pkix c w2)
    then show ?thesis by (simp add: keyImpliesPub_def fileExists_def lookupFile_def)
  qed
  with e show ?thesis by simp
qed

lemma ensureCSR_lookup:
  assumes "n \<noteq> ''device.csr''"
  shows "lookupFile n (snd (ensureCSR lib d w)) = lookupFile n (snd (ensureKeyPair lib d w))"
proof -
  obtain r w' where e: "ensureCSR lib d w = (r, w')" by fastforce
  from e have "lookupFile n w' = lookupFile n (snd (ensureKeyPair lib d w))"
  proof (cases rule: ensureCSRE)
    case (keyFails err)
    then show ?thesis by simp
  next
    case csrPresent
    then show ?thesis by simp
  next
    case (noWrite w1 err)
    then show ?thesis by (simp add: lookupFile_def)
  next
    case (written w1 f privPem rest privateKey csrBytes rr c)
    have "lookupFile n w' = map_of (entries w1) n"
      using written(7) assms by (simp add: lookupFile_def map_add_def split: option.splits)
    with written(1) show ?thesis by (simp add: lookupFile_entries)
  qed
  with e show ?thesis by simp
qed

lemma keyImpliesPub_lookup:
  "lookupFile ''device.key'' w' = lookupFile ''device.key'' w \<Longrightarrow>
   lookupFile ''device.pub'' w' = lookupFile ''device.pub'' w \<Longrightarrow>
   keyImpliesPub w \<Longrightarrow> keyImpliesPub w'"
  by (simp add: keyImpliesPub_def fileExists_def)

lemma perform_keyImpliesPub:
  assumes "keyImpliesPub w"
    and "c = CallClearCrypto \<longrightarrow> fst (ClearCrypto d w) = Inr ()"
  shows "keyImpliesPub (perform lib d c w)"
proof (cases c)
  case CallClearCrypto
  obtain r w' where cl: "ClearCrypto d w = (r, w')" by fastforce
  with assms(2) CallClearCrypto have "ClearCrypto d w = (Inr (), w')" by simp
  then have "dir w' = Some []" by (cases rule: ClearCryptoE) simp_all
  with cl CallClearCrypto show ?thesis
    by (simp add: keyImpliesPub_def fileExists_def lookupFile_def)
next
  case CallEnsureKeyPair
  with assms(1) show ?thesis by (simp add: ensureKeyPair_keyImpliesPub)
next
  case CallEnsureCSR
  have "keyImpliesPub (snd (ensureKeyPair lib d w))"
    using assms(1) by (rule ensureKeyPair_keyImpliesPub)
  then have "keyImpliesPub (snd (ensureCSR lib d w))"
    by (rule keyImpliesPub_lookup [rotated 2]) (simp_all add: ensureCSR_lookup)
  with CallEnsureCSR show ?thesis by simp
next
  case CallGetCSRString
  with assms(1) show ?thesis by (simp add: keyImpliesPub_def fileExists_def)
next
  case (CallSaveCertificateFromString s)
  from assms(1) have "keyImpliesPub (snd (saveCertificateFromString lib d s w))"
    by (rule keyImpliesPub_lookup [rotated 2]) (simp_all add: saveCertificateFromString_lookup)
  with CallSaveCertificateFromString show ?thesis by simp
next
  case CallHasValidCertificate
  with assms(1) show ?thesis by (simp add: keyImpliesPub_def fileExists_def)
next
  case CallGetTLSConfig
  with assms(1) show ?thesis by (simp add: keyImpliesPub_def fileExists_def)
qed

lemma run_keyImpliesPub:
  "keyImpliesPub w \<Longrightarrow> clearsSucceed lib d cs w \<Longrightarrow> keyImpliesPub (run lib d cs w)"
proof (induction cs arbitrary: w)
  case Nil
  then show ?case by simp
next
  case (Cons c cs)
  from Cons.prems(2) have ok: "c = CallClearCrypto \<longrightarrow> fst (ClearCrypto d w) = Inr ()"
    and rest: "clearsSucceed lib d cs (perform lib d c w)"
    by (auto split: operation.splits)
  from Cons.prems(1) ok have "keyImpliesPub (perform lib d c w)" by (rule perform_keyImpliesPub)
  from Cons.IH [OF this rest] show ?case by simp
qed




end
